theory Spec2Isabelle
  imports Complex_Main
begin

section \<open>The bounce simulator: data model\<close>

text \<open>
  The repository holds three copies of one React component: the word that bounces inside
  its container and changes when it hits a wall. The copies differ in the word pool, the
  speed constant, the colour pool (one copy) and the motion toggle (two copies). The model
  is one simulator with the copy as a parameter.

  JavaScript numbers are modelled as exact reals: comparisons, clamping and
  \<open>Math.abs\<close> behave on doubles as they do on reals, sums and products are exact here
  and rounded there. What is proved below about bounds, signs, magnitudes and the
  scenarios does not depend on the rounding; exact equality of sums over several frames
  does, and is stated for exact arithmetic only. \<open>undefined\<close> is \<open>None\<close>.
\<close>

datatype variant =
    Toggle   \<comment> \<open>the BouncingWord with the motion toggle and the change-word button\<close>
  | Colour   \<comment> \<open>components/BouncingWord.tsx: word and colour change, no motion flag\<close>
  | Landing  \<comment> \<open>components/AnalysisLanding.tsx: BouncingAnimation\<close>

record Position =
  pos_x :: real
  pos_y :: real

record Velocity =
  vel_x :: real
  vel_y :: real

record Dimensions =
  width :: real
  height :: real
  wordWidth :: real
  wordHeight :: real

definition WORD_POOL :: "variant \<Rightarrow> string list" where
  "WORD_POOL v =
     (case v of
        Landing \<Rightarrow>
          [''self'', ''values'', ''wants'', ''bonds'', ''culture'', ''desires'', ''fears'',
           ''motives'', ''ego'', ''shadows'', ''memories'', ''dreams'', ''hopes'',
           ''limits'', ''growth'', ''truth'', ''masks'', ''core'', ''essence'']
      | _ \<Rightarrow>
          [''self'', ''values'', ''wants'', ''triggers'', ''desires'', ''fears'',
           ''motives'', ''ego'', ''shadows'', ''memories'', ''dreams'', ''hopes'',
           ''limits'', ''growth'', ''truth'', ''masks'', ''core'', ''essence''])"

definition COLOR_POOL :: "string list" where
  "COLOR_POOL =
     [''hsl(0 0% 100%)'', ''hsl(45 100% 75%)'', ''hsl(120 45% 70%)'', ''hsl(300 60% 80%)'',
      ''hsl(30 85% 75%)'', ''hsl(180 55% 75%)'', ''hsl(60 80% 80%)'', ''hsl(320 50% 85%)'']"

definition SPEED :: "variant \<Rightarrow> real" where
  "SPEED v = (case v of Landing \<Rightarrow> 80 | _ \<Rightarrow> 100)"

definition hasMotionToggle :: "variant \<Rightarrow> bool" where
  "hasMotionToggle v = (case v of Colour \<Rightarrow> False | _ \<Rightarrow> True)"

text \<open>
  The component's state: the \<open>useState\<close> cells, the two refs the animation uses, and the
  part of the host the component talks to: the frame callbacks that
  \<open>requestAnimationFrame\<close> has scheduled and not yet run or cancelled, the next handle
  it will return, and whether the last run of the animation effect returned a cleanup.
\<close>

record State =
  currentWord :: "string option"
  currentColor :: "string option"
  position :: Position
  velocity :: Velocity
  isMotionEnabled :: bool
  dimensions :: Dimensions
  lastTimeRef :: real
  animationRef :: "nat option"
  pending :: "nat list"
  nextHandle :: nat
  hasCleanup :: bool

definition initialState :: State where
  "initialState =
     \<lparr> currentWord = Some ''self'',
       currentColor = Some (COLOR_POOL ! 0),
       position = \<lparr> pos_x = 50, pos_y = 50 \<rparr>,
       velocity = \<lparr> vel_x = 1, vel_y = 1 \<rparr>,
       isMotionEnabled = True,
       dimensions = \<lparr> width = 0, height = 0, wordWidth = 0, wordHeight = 0 \<rparr>,
       lastTimeRef = 0,
       animationRef = None,
       pending = [],
       nextHandle = 1,
       hasCleanup = False \<rparr>"

section \<open>Choosing the next word and colour\<close>

text \<open>
  \<open>available[Math.floor(Math.random() * available.length)]\<close>, with \<open>r\<close> the value
  \<open>Math.random()\<close> returned. An index outside the array reads \<open>undefined\<close>.
\<close>

definition randomElement :: "real \<Rightarrow> 'a list \<Rightarrow> 'a option" where
  "randomElement r available =
     (let i = \<lfloor>r * real (length available)\<rfloor>
      in if 0 \<le> i \<and> i < int (length available) then Some (available ! nat i) else None)"

definition availableWords :: "variant \<Rightarrow> string option \<Rightarrow> string list" where
  "availableWords v cur = filter (\<lambda>word. Some word \<noteq> cur) (WORD_POOL v)"

definition availableColors :: "string option \<Rightarrow> string list" where
  "availableColors cur = filter (\<lambda>color. Some color \<noteq> cur) COLOR_POOL"

definition changeWord :: "variant \<Rightarrow> real \<Rightarrow> State \<Rightarrow> State" where
  "changeWord v rw st =
     st\<lparr>currentWord := randomElement rw (availableWords v (currentWord st))\<rparr>"

definition changeWordAndColor :: "real \<Rightarrow> real \<Rightarrow> State \<Rightarrow> State" where
  "changeWordAndColor rw rc st =
     st\<lparr>currentWord := randomElement rw (availableWords Colour (currentWord st)),
        currentColor := randomElement rc (availableColors (currentColor st))\<rparr>"

text \<open>What the animation calls on a collision: each copy has one of the two.\<close>

definition changeLabel :: "variant \<Rightarrow> real \<Rightarrow> real \<Rightarrow> State \<Rightarrow> State" where
  "changeLabel v rw rc st =
     (case v of Colour \<Rightarrow> changeWordAndColor rw rc st | _ \<Rightarrow> changeWord v rw st)"

section \<open>One frame\<close>

text \<open>
  The function handed to \<open>setPosition\<close>, with its three locals. \<open>velocity\<close> and
  \<open>dimensions\<close> are the values the closure holds.
\<close>

record Frame =
  newPosition :: Position
  newVelocity :: Velocity
  collisionDetected :: bool

definition candidate :: "variant \<Rightarrow> Velocity \<Rightarrow> real \<Rightarrow> Position \<Rightarrow> Frame" where
  "candidate v vel deltaTime prevPosition =
     \<lparr> newPosition =
         \<lparr> pos_x = pos_x prevPosition + vel_x vel * SPEED v * deltaTime,
           pos_y = pos_y prevPosition + vel_y vel * SPEED v * deltaTime \<rparr>,
       newVelocity = vel,
       collisionDetected = False \<rparr>"

definition checkHorizontal :: "Dimensions \<Rightarrow> Frame \<Rightarrow> Frame" where
  "checkHorizontal d f =
     (if pos_x (newPosition f) \<le> 0 then
        f\<lparr>newPosition := (newPosition f)\<lparr>pos_x := 0\<rparr>,
          newVelocity := (newVelocity f)\<lparr>vel_x := \<bar>vel_x (newVelocity f)\<bar>\<rparr>,
          collisionDetected := True\<rparr>
      else if pos_x (newPosition f) \<ge> width d - wordWidth d then
        f\<lparr>newPosition := (newPosition f)\<lparr>pos_x := width d - wordWidth d\<rparr>,
          newVelocity := (newVelocity f)\<lparr>vel_x := - \<bar>vel_x (newVelocity f)\<bar>\<rparr>,
          collisionDetected := True\<rparr>
      else f)"

definition checkVertical :: "Dimensions \<Rightarrow> Frame \<Rightarrow> Frame" where
  "checkVertical d f =
     (if pos_y (newPosition f) \<le> 0 then
        f\<lparr>newPosition := (newPosition f)\<lparr>pos_y := 0\<rparr>,
          newVelocity := (newVelocity f)\<lparr>vel_y := \<bar>vel_y (newVelocity f)\<bar>\<rparr>,
          collisionDetected := True\<rparr>
      else if pos_y (newPosition f) \<ge> height d - wordHeight d then
        f\<lparr>newPosition := (newPosition f)\<lparr>pos_y := height d - wordHeight d\<rparr>,
          newVelocity := (newVelocity f)\<lparr>vel_y := - \<bar>vel_y (newVelocity f)\<bar>\<rparr>,
          collisionDetected := True\<rparr>
      else f)"

definition updatePosition :: "variant \<Rightarrow> Velocity \<Rightarrow> Dimensions \<Rightarrow> real \<Rightarrow> Position \<Rightarrow> Frame" where
  "updatePosition v vel d deltaTime prevPosition =
     checkVertical d (checkHorizontal d (candidate v vel deltaTime prevPosition))"

text \<open>Which branch of the horizontal and of the vertical check the frame takes.\<close>

definition clampedLeft :: "variant \<Rightarrow> Velocity \<Rightarrow> real \<Rightarrow> Position \<Rightarrow> bool" where
  "clampedLeft v vel deltaTime prevPosition =
     (pos_x (newPosition (candidate v vel deltaTime prevPosition)) \<le> 0)"

definition clampedRight :: "variant \<Rightarrow> Velocity \<Rightarrow> Dimensions \<Rightarrow> real \<Rightarrow> Position \<Rightarrow> bool" where
  "clampedRight v vel d deltaTime prevPosition =
     (0 < pos_x (newPosition (candidate v vel deltaTime prevPosition)) \<and>
      pos_x (newPosition (candidate v vel deltaTime prevPosition)) \<ge> width d - wordWidth d)"

definition clampedTop :: "variant \<Rightarrow> Velocity \<Rightarrow> real \<Rightarrow> Position \<Rightarrow> bool" where
  "clampedTop v vel deltaTime prevPosition =
     (pos_y (newPosition (candidate v vel deltaTime prevPosition)) \<le> 0)"

definition clampedBottom :: "variant \<Rightarrow> Velocity \<Rightarrow> Dimensions \<Rightarrow> real \<Rightarrow> Position \<Rightarrow> bool" where
  "clampedBottom v vel d deltaTime prevPosition =
     (0 < pos_y (newPosition (candidate v vel deltaTime prevPosition)) \<and>
      pos_y (newPosition (candidate v vel deltaTime prevPosition)) \<ge> height d - wordHeight d)"

section \<open>The host's frame queue and the animation callback\<close>

definition requestAnimationFrame :: "State \<Rightarrow> State" where
  \<comment> \<open>\<open>animationRef.current = requestAnimationFrame(animate)\<close>\<close>
  "requestAnimationFrame st =
     st\<lparr>animationRef := Some (nextHandle st),
        pending := pending st @ [nextHandle st],
        nextHandle := Suc (nextHandle st)\<rparr>"

definition cancelAnimationFrame :: "nat \<Rightarrow> State \<Rightarrow> State" where
  "cancelAnimationFrame h st = st\<lparr>pending := removeAll h (pending st)\<rparr>"

text \<open>
  \<open>animate(currentTime)\<close>. \<open>rw\<close> and \<open>rc\<close> are the two values \<open>Math.random()\<close> returns
  if the word (and colour) change. The closure's \<open>velocity\<close>, \<open>dimensions\<close> and
  \<open>currentWord\<close> are read from the state: the effect that builds the closure runs again
  whenever the dimensions are measured again, which every change of word causes.
\<close>

definition deltaTimeOf :: "real \<Rightarrow> State \<Rightarrow> real" where
  "deltaTimeOf currentTime st =
     (currentTime - (if lastTimeRef st = 0 then currentTime else lastTimeRef st)) / 1000"

definition animate :: "variant \<Rightarrow> real \<Rightarrow> real \<Rightarrow> real \<Rightarrow> State \<Rightarrow> State" where
  "animate v rw rc currentTime st =
     (let deltaTime = deltaTimeOf currentTime st;
          f = updatePosition v (velocity st) (dimensions st) deltaTime (position st);
          st1 = st\<lparr>lastTimeRef := currentTime\<rparr>;
          st2 = (if collisionDetected f
                 then changeLabel v rw rc (st1\<lparr>velocity := newVelocity f\<rparr>)
                 else st1)
      in requestAnimationFrame (st2\<lparr>position := newPosition f\<rparr>))"

section \<open>The animation effect\<close>

text \<open>
  The body of the \<open>useEffect\<close> that starts the loop, and the cleanup it returns. A run
  that leaves at \<open>if (!isMotionEnabled) return;\<close> returns no cleanup; the copy without
  the motion flag has no such line.
\<close>

definition animationEffect :: "variant \<Rightarrow> State \<Rightarrow> State" where
  "animationEffect v st =
     (if hasMotionToggle v \<and> \<not> isMotionEnabled st then st\<lparr>hasCleanup := False\<rparr>
      else if width (dimensions st) > 0 \<and> height (dimensions st) > 0
           then (requestAnimationFrame st)\<lparr>hasCleanup := True\<rparr>
           else st\<lparr>hasCleanup := True\<rparr>)"

definition animationCleanup :: "State \<Rightarrow> State" where
  \<comment> \<open>\<open>if (animationRef.current) cancelAnimationFrame(animationRef.current)\<close>\<close>
  "animationCleanup st =
     (case animationRef st of
        None \<Rightarrow> st
      | Some h \<Rightarrow> if h \<noteq> 0 then cancelAnimationFrame h st else st)"

text \<open>
  React runs an effect again when one of its dependencies has changed: first the cleanup
  the previous run returned, if it returned one, then the body.
\<close>

definition rerunAnimationEffect :: "variant \<Rightarrow> State \<Rightarrow> State" where
  "rerunAnimationEffect v st =
     animationEffect v (if hasCleanup st then animationCleanup st else st)"

definition setIsMotionEnabled :: "variant \<Rightarrow> bool \<Rightarrow> State \<Rightarrow> State" where
  \<comment> \<open>a state cell set to the value it holds causes no render; the colour copy has no such cell\<close>
  "setIsMotionEnabled v b st =
     (if \<not> hasMotionToggle v \<or> b = isMotionEnabled st then st
      else rerunAnimationEffect v (st\<lparr>isMotionEnabled := b\<rparr>))"

definition setDimensions :: "variant \<Rightarrow> Dimensions \<Rightarrow> State \<Rightarrow> State" where
  \<comment> \<open>\<open>updateDimensions\<close> stores a fresh object, so the dependency always changes\<close>
  "setDimensions v d st = rerunAnimationEffect v (st\<lparr>dimensions := d\<rparr>)"

text \<open>
  A display refresh at time \<open>currentTime\<close>: the host takes the callbacks scheduled so far
  and runs each of them. With nothing scheduled nothing runs.
\<close>

fun refresh :: "variant \<Rightarrow> real \<times> real \<times> real \<Rightarrow> State \<Rightarrow> State" where
  "refresh v (currentTime, rw, rc) st =
     fold (\<lambda>h s. animate v rw rc currentTime s) (pending st) (st\<lparr>pending := []\<rparr>)"

definition refreshes :: "variant \<Rightarrow> (real \<times> real \<times> real) list \<Rightarrow> State \<Rightarrow> State" where
  "refreshes v ts st = fold (refresh v) ts st"

text \<open>
  What holds of the frame queue in every state the component reaches: at most one callback
  is scheduled, \<open>animationRef\<close> holds its handle, the effect run that started the loop
  returned a cleanup, and the motion flag (where there is one) is on.
\<close>

definition queueInv :: "variant \<Rightarrow> State \<Rightarrow> bool" where
  "queueInv v st =
     (0 < nextHandle st \<and>
      (case pending st of
         [] \<Rightarrow> True
       | [h] \<Rightarrow> animationRef st = Some h \<and> h \<noteq> 0 \<and> hasCleanup st \<and>
                (isMotionEnabled st \<or> \<not> hasMotionToggle v)
       | _ \<Rightarrow> False))"

section \<open>Mount and the states the component reaches\<close>

text \<open>
  The effect that runs once at mount and draws the starting position and velocity.
  \<open>measured\<close> holds the two bounding boxes, or nothing when a ref is still empty;
  \<open>r1\<close> to \<open>r5\<close> are the five values \<open>Math.random()\<close> returns, in order.
\<close>

definition initEffect ::
    "Dimensions option \<Rightarrow> real \<Rightarrow> real \<Rightarrow> real \<Rightarrow> real \<Rightarrow> real \<Rightarrow> State \<Rightarrow> State" where
  "initEffect measured r1 r2 r3 r4 r5 st =
     (case measured of
        None \<Rightarrow> st
      | Some m \<Rightarrow>
          (let maxX = width m - wordWidth m;
               maxY = height m - wordHeight m;
               angle = (r3 * 30 + 30) * pi / 180;
               dirX = (if r4 > 0.5 then 1 else - 1);
               dirY = (if r5 > 0.5 then 1 else - 1)
           in st\<lparr>position := \<lparr> pos_x = r1 * maxX, pos_y = r2 * maxY \<rparr>,
                 velocity := \<lparr> vel_x = cos angle * dirX, vel_y = sin angle * dirY \<rparr>\<rparr>))"

text \<open>
  The states of a run: the first render, the mount effect, and then in any order a
  measurement of the dimensions, a display refresh, a change of the motion flag and a
  change of word. Every \<open>Math.random()\<close> lies in [0, 1).
\<close>

inductive reachable :: "variant \<Rightarrow> State \<Rightarrow> bool" for v :: variant where
  start: "reachable v initialState"
| mount: "0 \<le> r3 \<Longrightarrow> r3 < 1 \<Longrightarrow> reachable v (initEffect measured r1 r2 r3 r4 r5 initialState)"
| resize: "reachable v st \<Longrightarrow> reachable v (setDimensions v d st)"
| tick: "reachable v st \<Longrightarrow> 0 \<le> rw \<Longrightarrow> rw < 1 \<Longrightarrow> 0 \<le> rc \<Longrightarrow> rc < 1 \<Longrightarrow>
         reachable v (refresh v (currentTime, rw, rc) st)"
| toggle: "reachable v st \<Longrightarrow> reachable v (setIsMotionEnabled v b st)"
| change: "reachable v st \<Longrightarrow> 0 \<le> rw \<Longrightarrow> rw < 1 \<Longrightarrow> 0 \<le> rc \<Longrightarrow> rc < 1 \<Longrightarrow>
           reachable v (changeLabel v rw rc st)"

section \<open>Several frames in a row\<close>

text \<open>
  The position and velocity cells over a run of frames with the given \<open>deltaTime\<close>s and
  unchanged dimensions; \<open>setVelocity\<close> is called on a collision only.
\<close>

fun frames :: "variant \<Rightarrow> Dimensions \<Rightarrow> real list \<Rightarrow> Position \<times> Velocity \<Rightarrow> Position \<times> Velocity" where
  "frames v d [] pv = pv"
| "frames v d (deltaTime # dts) (p, vel) =
     (let f = updatePosition v vel d deltaTime p
      in frames v d dts (newPosition f, if collisionDetected f then newVelocity f else vel))"

fun noCollision :: "variant \<Rightarrow> Dimensions \<Rightarrow> real list \<Rightarrow> Position \<times> Velocity \<Rightarrow> bool" where
  "noCollision v d [] pv = True"
| "noCollision v d (deltaTime # dts) (p, vel) =
     (let f = updatePosition v vel d deltaTime p
      in \<not> collisionDetected f \<and>
         noCollision v d dts (newPosition f, if collisionDetected f then newVelocity f else vel))"

text \<open>The position lies strictly between the walls: no branch of either check fires.\<close>

definition strictlyInside :: "Dimensions \<Rightarrow> Position \<Rightarrow> bool" where
  "strictlyInside d p =
     (0 < pos_x p \<and> pos_x p < width d - wordWidth d \<and>
      0 < pos_y p \<and> pos_y p < height d - wordHeight d)"

text \<open>The state of the scenarios: container 500 by 300, label 100 by 50, the loop running.\<close>

definition scenarioDimensions :: Dimensions where
  "scenarioDimensions = \<lparr> width = 500, height = 300, wordWidth = 100, wordHeight = 50 \<rparr>"

definition scenarioState :: "real \<Rightarrow> real \<Rightarrow> real \<Rightarrow> real \<Rightarrow> real \<Rightarrow> State" where
  "scenarioState x y vx vy lastTime =
     initialState
       \<lparr> position := \<lparr> pos_x = x, pos_y = y \<rparr>,
         velocity := \<lparr> vel_x = vx, vel_y = vy \<rparr>,
         dimensions := scenarioDimensions,
         lastTimeRef := lastTime,
         animationRef := Some 1,
         pending := [1],
         nextHandle := 2,
         hasCleanup := True \<rparr>"

section \<open>Bounds\<close>

lemma checkHorizontal_x:
  "0 \<le> width d - wordWidth d \<Longrightarrow>
   0 \<le> pos_x (newPosition (checkHorizontal d f)) \<and>
   pos_x (newPosition (checkHorizontal d f)) \<le> width d - wordWidth d"
  by (simp add: checkHorizontal_def)

lemma checkVertical_y:
  "0 \<le> height d - wordHeight d \<Longrightarrow>
   0 \<le> pos_y (newPosition (checkVertical d f)) \<and>
   pos_y (newPosition (checkVertical d f)) \<le> height d - wordHeight d"
  by (simp add: checkVertical_def)

lemma checkVertical_x [simp]:
  "pos_x (newPosition (checkVertical d f)) = pos_x (newPosition f)"
  by (simp add: checkVertical_def)

lemma checkVertical_vx [simp]:
  "vel_x (newVelocity (checkVertical d f)) = vel_x (newVelocity f)"
  by (simp add: checkVertical_def)

lemma animate_position [simp]:
  "position (animate v rw rc t st) =
   newPosition (updatePosition v (velocity st) (dimensions st) (deltaTimeOf t st) (position st))"
  by (simp add: animate_def Let_def requestAnimationFrame_def)

lemma changeLabel_velocity [simp]: "velocity (changeLabel v rw rc st) = velocity st"
  by (simp add: changeLabel_def changeWord_def changeWordAndColor_def split: variant.splits)

lemma animate_velocity:
  "velocity (animate v rw rc t st) =
   (let f = updatePosition v (velocity st) (dimensions st) (deltaTimeOf t st) (position st)
    in if collisionDetected f then newVelocity f else velocity st)"
  by (simp add: animate_def Let_def requestAnimationFrame_def)

text \<open>
  C1, as amended. When the label fits into the container (both upper bounds are at least
  0), the position a frame stores lies within the bounds, whatever the previous position,
  the velocity and \<open>deltaTime\<close> are: both for the function handed to \<open>setPosition\<close>
  and for the state after \<open>animate\<close>.
\<close>

theorem position_within_bounds:
  assumes "0 \<le> width d - wordWidth d" and "0 \<le> height d - wordHeight d"
  shows "0 \<le> pos_x (newPosition (updatePosition v vel d deltaTime p)) \<and>
         pos_x (newPosition (updatePosition v vel d deltaTime p)) \<le> width d - wordWidth d \<and>
         0 \<le> pos_y (newPosition (updatePosition v vel d deltaTime p)) \<and>
         pos_y (newPosition (updatePosition v vel d deltaTime p)) \<le> height d - wordHeight d \<and>
         (dimensions st = d \<longrightarrow>
            0 \<le> pos_x (position (animate v rw rc t st)) \<and>
            pos_x (position (animate v rw rc t st)) \<le> width d - wordWidth d \<and>
            0 \<le> pos_y (position (animate v rw rc t st)) \<and>
            pos_y (position (animate v rw rc t st)) \<le> height d - wordHeight d)"
proof -
  have bounds: "0 \<le> pos_x (newPosition (updatePosition v vel' d dt p')) \<and>
         pos_x (newPosition (updatePosition v vel' d dt p')) \<le> width d - wordWidth d \<and>
         0 \<le> pos_y (newPosition (updatePosition v vel' d dt p')) \<and>
         pos_y (newPosition (updatePosition v vel' d dt p')) \<le> height d - wordHeight d"
    for vel' dt p'
    using checkHorizontal_x [OF assms(1)] checkVertical_y [OF assms(2)]
    by (simp add: updatePosition_def)
  show ?thesis
    using bounds by simp
qed

theorem position_within_bounds_witness:
  "pos_x (newPosition (updatePosition Toggle \<lparr>vel_x = 1, vel_y = 1\<rparr> scenarioDimensions (1/10)
      \<lparr>pos_x = 480, pos_y = 10\<rparr>)) \<le> 400 \<and>
   0 \<le> pos_y (position (animate Toggle (1/2) (1/2) 1100 (scenarioState 480 10 1 1 1000)))"
  using position_within_bounds [where d = scenarioDimensions and v = Toggle
      and st = "scenarioState 480 10 1 1 1000" and vel = "\<lparr>vel_x = 1, vel_y = 1\<rparr>"
      and deltaTime = "1/10" and p = "\<lparr>pos_x = 480, pos_y = 10\<rparr>"
      and rw = "1/2" and rc = "1/2" and t = 1100]
  by (simp add: scenarioDimensions_def scenarioState_def)

text \<open>
  C1, as stated, fails when the label is wider than the container: with a container
  100 by 300 and a label 200 by 50 (all four dimensions known and positive) the frame from
  (50, 10) with velocity (1, 1) and \<open>deltaTime\<close> 0.016 stores x = -100.
\<close>

theorem position_within_bounds_counterexample:
  "pos_x (newPosition (updatePosition Toggle \<lparr>vel_x = 1, vel_y = 1\<rparr>
      \<lparr>width = 100, height = 300, wordWidth = 200, wordHeight = 50\<rparr> (16/1000)
      \<lparr>pos_x = 50, pos_y = 10\<rparr>)) = -100 \<and>
   \<not> (0 \<le> pos_x (newPosition (updatePosition Toggle \<lparr>vel_x = 1, vel_y = 1\<rparr>
      \<lparr>width = 100, height = 300, wordWidth = 200, wordHeight = 50\<rparr> (16/1000)
      \<lparr>pos_x = 50, pos_y = 10\<rparr>)))"
  by (simp add: updatePosition_def checkHorizontal_def checkVertical_def candidate_def SPEED_def)

section \<open>Reflection keeps the magnitude\<close>

lemma checkHorizontal_y [simp]:
  "pos_y (newPosition (checkHorizontal d f)) = pos_y (newPosition f)"
  by (simp add: checkHorizontal_def)

lemma checkHorizontal_vy [simp]:
  "vel_y (newVelocity (checkHorizontal d f)) = vel_y (newVelocity f)"
  by (simp add: checkHorizontal_def)

lemma checkHorizontal_abs_vx:
  "\<bar>vel_x (newVelocity (checkHorizontal d f))\<bar> = \<bar>vel_x (newVelocity f)\<bar>"
  by (simp add: checkHorizontal_def)

lemma checkVertical_abs_vy:
  "\<bar>vel_y (newVelocity (checkVertical d f))\<bar> = \<bar>vel_y (newVelocity f)\<bar>"
  by (simp add: checkVertical_def)

lemma candidate_newVelocity [simp]: "newVelocity (candidate v vel dt p) = vel"
  by (simp add: candidate_def)

text \<open>
  C9. A frame changes at most the sign of each velocity component: the magnitude of each
  component after the frame is that before it, for the function handed to
  \<open>setPosition\<close> and for the velocity cell after \<open>animate\<close>.
\<close>

theorem reflection_preserves_magnitude:
  "\<bar>vel_x (newVelocity (updatePosition v vel d deltaTime p))\<bar> = \<bar>vel_x vel\<bar> \<and>
   \<bar>vel_y (newVelocity (updatePosition v vel d deltaTime p))\<bar> = \<bar>vel_y vel\<bar> \<and>
   \<bar>vel_x (velocity (animate v rw rc t st))\<bar> = \<bar>vel_x (velocity st)\<bar> \<and>
   \<bar>vel_y (velocity (animate v rw rc t st))\<bar> = \<bar>vel_y (velocity st)\<bar>"
proof -
  have mag: "\<bar>vel_x (newVelocity (updatePosition v vel' d' dt p'))\<bar> = \<bar>vel_x vel'\<bar> \<and>
             \<bar>vel_y (newVelocity (updatePosition v vel' d' dt p'))\<bar> = \<bar>vel_y vel'\<bar>"
    for vel' d' dt p'
    by (simp add: updatePosition_def checkHorizontal_abs_vx checkVertical_abs_vy)
  show ?thesis
    using mag by (simp add: animate_velocity Let_def)
qed

section \<open>The scenario at the right wall\<close>

lemma requestAnimationFrame_fields [simp]:
  "currentWord (requestAnimationFrame st) = currentWord st"
  "currentColor (requestAnimationFrame st) = currentColor st"
  "position (requestAnimationFrame st) = position st"
  "velocity (requestAnimationFrame st) = velocity st"
  "dimensions (requestAnimationFrame st) = dimensions st"
  "isMotionEnabled (requestAnimationFrame st) = isMotionEnabled st"
  "lastTimeRef (requestAnimationFrame st) = lastTimeRef st"
  "hasCleanup (requestAnimationFrame st) = hasCleanup st"
  by (simp_all add: requestAnimationFrame_def)

lemma changeLabel_fields [simp]:
  "position (changeLabel v rw rc st) = position st"
  "dimensions (changeLabel v rw rc st) = dimensions st"
  "isMotionEnabled (changeLabel v rw rc st) = isMotionEnabled st"
  "lastTimeRef (changeLabel v rw rc st) = lastTimeRef st"
  "animationRef (changeLabel v rw rc st) = animationRef st"
  "pending (changeLabel v rw rc st) = pending st"
  "nextHandle (changeLabel v rw rc st) = nextHandle st"
  "hasCleanup (changeLabel v rw rc st) = hasCleanup st"
  by (simp_all add: changeLabel_def changeWord_def changeWordAndColor_def split: variant.splits)

lemma changeLabel_currentWord:
  "currentWord (changeLabel v rw rc st) = randomElement rw (availableWords v (currentWord st))"
  by (simp add: changeLabel_def changeWord_def changeWordAndColor_def split: variant.splits)

lemma animate_currentWord:
  "currentWord (animate v rw rc t st) =
   (if collisionDetected (updatePosition v (velocity st) (dimensions st) (deltaTimeOf t st) (position st))
    then randomElement rw (availableWords v (currentWord st)) else currentWord st)"
  by (simp add: animate_def Let_def changeLabel_currentWord)

lemma randomElement_Some:
  assumes "randomElement r xs = Some x"
  shows "x \<in> set xs"
proof -
  let ?i = "\<lfloor>r * real (length xs)\<rfloor>"
  from assms have lo: "0 \<le> ?i" and hi: "?i < int (length xs)" and x: "xs ! nat ?i = x"
    by (simp_all add: randomElement_def Let_def split: if_splits)
  from lo hi have "nat ?i < length xs" by linarith
  with x show ?thesis by (metis nth_mem)
qed

lemma randomElement_filter_neq:
  "randomElement r (filter (\<lambda>w. Some w \<noteq> Some c) xs) \<noteq> Some c"
proof
  assume "randomElement r (filter (\<lambda>w. Some w \<noteq> Some c) xs) = Some c"
  then have "c \<in> set (filter (\<lambda>w. Some w \<noteq> Some c) xs)" by (rule randomElement_Some)
  then show False by simp
qed

text \<open>
  C2. Container 500 by 300, label 100 by 50, position (480, 10), velocity (1, 1),
  \<open>deltaTime\<close> 0.1 s (timestamps 1000 and 1100 ms) and speed 100 (the two BouncingWord
  copies): the frame stores position (400, 20) and velocity (-1, 1), detects a collision,
  and the word after the frame differs from the word before it, whatever
  \<open>Math.random()\<close> returns.
\<close>

theorem scenario_right_wall:
  "SPEED Toggle = 100 \<and> SPEED Colour = 100 \<and>
   updatePosition Toggle \<lparr>vel_x = 1, vel_y = 1\<rparr> scenarioDimensions (1/10) \<lparr>pos_x = 480, pos_y = 10\<rparr> =
     \<lparr>newPosition = \<lparr>pos_x = 400, pos_y = 20\<rparr>, newVelocity = \<lparr>vel_x = -1, vel_y = 1\<rparr>,
      collisionDetected = True\<rparr> \<and>
   updatePosition Colour \<lparr>vel_x = 1, vel_y = 1\<rparr> scenarioDimensions (1/10) \<lparr>pos_x = 480, pos_y = 10\<rparr> =
     \<lparr>newPosition = \<lparr>pos_x = 400, pos_y = 20\<rparr>, newVelocity = \<lparr>vel_x = -1, vel_y = 1\<rparr>,
      collisionDetected = True\<rparr> \<and>
   deltaTimeOf 1100 (scenarioState 480 10 1 1 1000) = 1/10 \<and>
   position (animate Toggle rw rc 1100 (scenarioState 480 10 1 1 1000)) = \<lparr>pos_x = 400, pos_y = 20\<rparr> \<and>
   velocity (animate Toggle rw rc 1100 (scenarioState 480 10 1 1 1000)) = \<lparr>vel_x = -1, vel_y = 1\<rparr> \<and>
   currentWord (animate Toggle rw rc 1100 (scenarioState 480 10 1 1 1000)) \<noteq>
     currentWord (scenarioState 480 10 1 1 1000) \<and>
   position (animate Colour rw rc 1100 (scenarioState 480 10 1 1 1000)) = \<lparr>pos_x = 400, pos_y = 20\<rparr> \<and>
   velocity (animate Colour rw rc 1100 (scenarioState 480 10 1 1 1000)) = \<lparr>vel_x = -1, vel_y = 1\<rparr> \<and>
   currentWord (animate Colour rw rc 1100 (scenarioState 480 10 1 1 1000)) \<noteq>
     currentWord (scenarioState 480 10 1 1 1000)"
proof -
  let ?s = "scenarioState 480 10 1 1 1000"
  let ?f = "\<lparr>newPosition = \<lparr>pos_x = 400, pos_y = 20\<rparr>, newVelocity = \<lparr>vel_x = -1, vel_y = 1\<rparr>,
      collisionDetected = True\<rparr>"
  have dt: "deltaTimeOf 1100 ?s = 1/10"
    by (simp add: deltaTimeOf_def scenarioState_def)
  have fields: "velocity ?s = \<lparr>vel_x = 1, vel_y = 1\<rparr>" "dimensions ?s = scenarioDimensions"
    "position ?s = \<lparr>pos_x = 480, pos_y = 10\<rparr>" "currentWord ?s = Some ''self''"
    by (simp_all add: scenarioState_def initialState_def)
  have up: "updatePosition v \<lparr>vel_x = 1, vel_y = 1\<rparr> scenarioDimensions (1/10) \<lparr>pos_x = 480, pos_y = 10\<rparr> = ?f"
    if "SPEED v = 100" for v
    using that
    by (simp add: updatePosition_def checkHorizontal_def checkVertical_def candidate_def
        scenarioDimensions_def)
  have frame: "updatePosition v (velocity ?s) (dimensions ?s) (deltaTimeOf 1100 ?s) (position ?s) = ?f"
    if "SPEED v = 100" for v
    unfolding dt fields using up [OF that] .
  have word: "randomElement rw (availableWords v (Some ''self'')) \<noteq> Some ''self''" for v
    unfolding availableWords_def by (rule randomElement_filter_neq)
  have run: "position (animate v rw rc 1100 ?s) = \<lparr>pos_x = 400, pos_y = 20\<rparr> \<and>
             velocity (animate v rw rc 1100 ?s) = \<lparr>vel_x = -1, vel_y = 1\<rparr> \<and>
             currentWord (animate v rw rc 1100 ?s) \<noteq> currentWord ?s"
    if "SPEED v = 100" for v
    unfolding animate_position animate_velocity animate_currentWord Let_def frame [OF that]
    using word [of v] by (simp add: fields)
  have s1: "SPEED Toggle = 100" and s2: "SPEED Colour = 100"
    by (simp_all add: SPEED_def)
  show ?thesis
    using dt up [OF s1] up [OF s2] run [OF s1] run [OF s2] s1 s2 by blast
qed

section \<open>The reflection law\<close>

lemma candidate_newPosition [simp]:
  "pos_x (newPosition (candidate v vel dt p)) = pos_x p + vel_x vel * SPEED v * dt"
  "pos_y (newPosition (candidate v vel dt p)) = pos_y p + vel_y vel * SPEED v * dt"
  by (simp_all add: candidate_def)

text \<open>
  What each branch of the boundary check stores: the wall's coordinate, and the magnitude
  of the old velocity component with the sign that points away from the wall.
\<close>

lemma reflection_sets_magnitude:
  "(clampedLeft v vel deltaTime p \<longrightarrow>
      pos_x (newPosition (updatePosition v vel d deltaTime p)) = 0 \<and>
      vel_x (newVelocity (updatePosition v vel d deltaTime p)) = \<bar>vel_x vel\<bar> \<and>
      (vel_x vel \<noteq> 0 \<longrightarrow> 0 < vel_x (newVelocity (updatePosition v vel d deltaTime p)))) \<and>
   (clampedRight v vel d deltaTime p \<longrightarrow>
      pos_x (newPosition (updatePosition v vel d deltaTime p)) = width d - wordWidth d \<and>
      vel_x (newVelocity (updatePosition v vel d deltaTime p)) = - \<bar>vel_x vel\<bar> \<and>
      (vel_x vel \<noteq> 0 \<longrightarrow> vel_x (newVelocity (updatePosition v vel d deltaTime p)) < 0)) \<and>
   (clampedTop v vel deltaTime p \<longrightarrow>
      pos_y (newPosition (updatePosition v vel d deltaTime p)) = 0 \<and>
      vel_y (newVelocity (updatePosition v vel d deltaTime p)) = \<bar>vel_y vel\<bar> \<and>
      (vel_y vel \<noteq> 0 \<longrightarrow> 0 < vel_y (newVelocity (updatePosition v vel d deltaTime p)))) \<and>
   (clampedBottom v vel d deltaTime p \<longrightarrow>
      pos_y (newPosition (updatePosition v vel d deltaTime p)) = height d - wordHeight d \<and>
      vel_y (newVelocity (updatePosition v vel d deltaTime p)) = - \<bar>vel_y vel\<bar> \<and>
      (vel_y vel \<noteq> 0 \<longrightarrow> vel_y (newVelocity (updatePosition v vel d deltaTime p)) < 0))"
proof -
  have left: "clampedLeft v vel deltaTime p \<Longrightarrow>
      pos_x (newPosition (updatePosition v vel d deltaTime p)) = 0 \<and>
      vel_x (newVelocity (updatePosition v vel d deltaTime p)) = \<bar>vel_x vel\<bar>"
    by (simp add: clampedLeft_def updatePosition_def checkHorizontal_def)
  have right: "clampedRight v vel d deltaTime p \<Longrightarrow>
      pos_x (newPosition (updatePosition v vel d deltaTime p)) = width d - wordWidth d \<and>
      vel_x (newVelocity (updatePosition v vel d deltaTime p)) = - \<bar>vel_x vel\<bar>"
    by (simp add: clampedRight_def updatePosition_def checkHorizontal_def)
  have top: "clampedTop v vel deltaTime p \<Longrightarrow>
      pos_y (newPosition (updatePosition v vel d deltaTime p)) = 0 \<and>
      vel_y (newVelocity (updatePosition v vel d deltaTime p)) = \<bar>vel_y vel\<bar>"
    by (simp add: clampedTop_def updatePosition_def checkVertical_def)
  have bottom: "clampedBottom v vel d deltaTime p \<Longrightarrow>
      pos_y (newPosition (updatePosition v vel d deltaTime p)) = height d - wordHeight d \<and>
      vel_y (newVelocity (updatePosition v vel d deltaTime p)) = - \<bar>vel_y vel\<bar>"
    by (simp add: clampedBottom_def updatePosition_def checkVertical_def)
  show ?thesis
    using left right top bottom by simp
qed

section \<open>The new word and colour\<close>

lemma randomElement_defined:
  assumes "0 \<le> r" and "r < 1" and "xs \<noteq> []"
  shows "0 \<le> \<lfloor>r * real (length xs)\<rfloor> \<and> \<lfloor>r * real (length xs)\<rfloor> < int (length xs) \<and>
         (\<exists>x. randomElement r xs = Some x \<and> x \<in> set xs)"
proof -
  let ?n = "length xs"
  from assms(3) have n: "0 < real ?n" by simp
  from assms(1) have lo: "0 \<le> \<lfloor>r * real ?n\<rfloor>" by simp
  from assms(2) n have "r * real ?n < real ?n" by simp
  then have hi: "\<lfloor>r * real ?n\<rfloor> < int ?n" by (simp add: floor_less_iff)
  from lo hi have eq: "randomElement r xs = Some (xs ! nat \<lfloor>r * real ?n\<rfloor>)"
    by (simp add: randomElement_def Let_def)
  from lo hi have "nat \<lfloor>r * real ?n\<rfloor> < length xs" by linarith
  then have "xs ! nat \<lfloor>r * real ?n\<rfloor> \<in> set xs" by (rule nth_mem)
  with eq lo hi show ?thesis by simp
qed

lemma WORD_POOL_two:
  "''self'' \<in> set (WORD_POOL v)" "''values'' \<in> set (WORD_POOL v)"
  by (simp_all add: WORD_POOL_def split: variant.splits)

lemma availableWords_nonempty: "availableWords v cur \<noteq> []"
proof (cases "cur = Some ''self''")
  case True
  then have "''values'' \<in> set (availableWords v cur)"
    using WORD_POOL_two(2) [of v] by (simp add: availableWords_def)
  then show ?thesis by auto
next
  case False
  then have "''self'' \<in> set (availableWords v cur)"
    using WORD_POOL_two(1) [of v] by (auto simp: availableWords_def)
  then show ?thesis by auto
qed

lemma COLOR_POOL_two:
  "''hsl(0 0% 100%)'' \<in> set COLOR_POOL" "''hsl(45 100% 75%)'' \<in> set COLOR_POOL"
  by (simp_all add: COLOR_POOL_def)

lemma availableColors_nonempty: "availableColors cur \<noteq> []"
proof (cases "cur = Some ''hsl(0 0% 100%)''")
  case True
  then have "''hsl(45 100% 75%)'' \<in> set (availableColors cur)"
    using COLOR_POOL_two(2) by (simp add: availableColors_def)
  then show ?thesis by auto
next
  case False
  then have "''hsl(0 0% 100%)'' \<in> set (availableColors cur)"
    using COLOR_POOL_two(1) by (auto simp: availableColors_def)
  then show ?thesis by auto
qed

lemma WORD_POOL_distinct: "distinct (WORD_POOL v)"
  by (simp add: WORD_POOL_def split: variant.splits)

lemma COLOR_POOL_distinct: "distinct COLOR_POOL"
  by (simp add: COLOR_POOL_def)

lemma new_word_differs:
  assumes "0 \<le> r" and "r < 1"
  shows "\<exists>w. randomElement r (availableWords v cur) = Some w \<and> Some w \<noteq> cur \<and> w \<in> set (WORD_POOL v)"
proof -
  from randomElement_defined [OF assms availableWords_nonempty]
  obtain w where w: "randomElement r (availableWords v cur) = Some w" "w \<in> set (availableWords v cur)"
    by blast
  then show ?thesis by (auto simp: availableWords_def)
qed

lemma new_color_differs:
  assumes "0 \<le> r" and "r < 1"
  shows "\<exists>c. randomElement r (availableColors cur) = Some c \<and> Some c \<noteq> cur \<and> c \<in> set COLOR_POOL"
proof -
  from randomElement_defined [OF assms availableColors_nonempty]
  obtain c where c: "randomElement r (availableColors cur) = Some c" "c \<in> set (availableColors cur)"
    by blast
  then show ?thesis by (auto simp: availableColors_def)
qed

text \<open>
  C4. With \<open>Math.random()\<close> in [0, 1), the word \<open>changeWord\<close> and
  \<open>changeWordAndColor\<close> store differs from the word before the call, the colour
  \<open>changeWordAndColor\<close> stores differs from the colour before it, and so does the word
  after a frame that detects a collision.
\<close>

theorem label_changes:
  assumes "0 \<le> rw" and "rw < 1" and "0 \<le> rc" and "rc < 1"
  shows "currentWord (changeWord v rw st) \<noteq> currentWord st \<and>
         currentWord (changeWordAndColor rw rc st) \<noteq> currentWord st \<and>
         currentColor (changeWordAndColor rw rc st) \<noteq> currentColor st \<and>
         (collisionDetected
            (updatePosition v (velocity st) (dimensions st) (deltaTimeOf t st) (position st)) \<longrightarrow>
          currentWord (animate v rw rc t st) \<noteq> currentWord st)"
proof -
  have word: "randomElement rw (availableWords u (currentWord st)) \<noteq> currentWord st" for u
    using new_word_differs [OF assms(1,2), of u "currentWord st"] by auto
  have color: "randomElement rc (availableColors (currentColor st)) \<noteq> currentColor st"
    using new_color_differs [OF assms(3,4), of "currentColor st"] by auto
  have a: "currentWord (changeWord v rw st) \<noteq> currentWord st"
    unfolding changeWord_def using word [of v] by simp
  have b: "currentWord (changeWordAndColor rw rc st) \<noteq> currentWord st"
    unfolding changeWordAndColor_def using word [of Colour] by simp
  have c: "currentColor (changeWordAndColor rw rc st) \<noteq> currentColor st"
    unfolding changeWordAndColor_def using color by simp
  have d: "currentWord (animate v rw rc t st) \<noteq> currentWord st"
    if "collisionDetected
          (updatePosition v (velocity st) (dimensions st) (deltaTimeOf t st) (position st))"
    unfolding animate_currentWord using that word [of v] by simp
  from a b c d show ?thesis by blast
qed

theorem label_changes_witness:
  "currentWord (changeWord Toggle (1/2) initialState) = Some ''memories'' \<and>
   currentWord (changeWord Toggle (1/2) initialState) \<noteq> currentWord initialState \<and>
   currentColor (changeWordAndColor (1/2) (1/2) initialState) \<noteq> currentColor initialState \<and>
   currentWord (animate Toggle (1/2) (1/2) 1100 (scenarioState 480 10 1 1 1000)) \<noteq> Some ''self''"
proof -
  have r: "(0::real) \<le> 1/2" "(1/2::real) < 1" by simp_all
  have c: "collisionDetected (updatePosition Toggle (velocity (scenarioState 480 10 1 1 1000))
      (dimensions (scenarioState 480 10 1 1 1000)) (deltaTimeOf 1100 (scenarioState 480 10 1 1 1000))
      (position (scenarioState 480 10 1 1 1000)))"
    by (simp add: scenarioState_def scenarioDimensions_def deltaTimeOf_def updatePosition_def
        checkHorizontal_def checkVertical_def candidate_def SPEED_def)
  have w: "currentWord (changeWord Toggle (1/2) initialState) = Some ''memories''"
    by (simp add: changeWord_def initialState_def availableWords_def WORD_POOL_def
        randomElement_def)
  have s: "currentWord (scenarioState 480 10 1 1 1000) = Some ''self''"
    by (simp add: scenarioState_def initialState_def)
  show ?thesis
    using label_changes [OF r r, of Toggle initialState]
      label_changes [OF r r, of Toggle "scenarioState 480 10 1 1 1000" 1100] c w s
    by simp
qed

text \<open>
  C10. Every pool holds distinct words (colours), at least two of them, so the list that
  is left after the current word (colour) is filtered out is never empty; with
  \<open>Math.random()\<close> in [0, 1) the index \<open>Math.floor(r * length)\<close> lies within that
  list, and the element read is defined and belongs to the pool.
\<close>

theorem selection_total:
  assumes "0 \<le> rw" and "rw < 1" and "0 \<le> rc" and "rc < 1"
  shows "distinct (WORD_POOL v) \<and> 2 \<le> length (WORD_POOL v) \<and>
         availableWords v cur \<noteq> [] \<and>
         0 \<le> \<lfloor>rw * real (length (availableWords v cur))\<rfloor> \<and>
         \<lfloor>rw * real (length (availableWords v cur))\<rfloor> < int (length (availableWords v cur)) \<and>
         (\<exists>w. randomElement rw (availableWords v cur) = Some w \<and> w \<in> set (WORD_POOL v)) \<and>
         (\<exists>w. currentWord (changeWord v rw st) = Some w \<and> w \<in> set (WORD_POOL v)) \<and>
         distinct COLOR_POOL \<and> 2 \<le> length COLOR_POOL \<and>
         availableColors col \<noteq> [] \<and>
         0 \<le> \<lfloor>rc * real (length (availableColors col))\<rfloor> \<and>
         \<lfloor>rc * real (length (availableColors col))\<rfloor> < int (length (availableColors col)) \<and>
         (\<exists>c. randomElement rc (availableColors col) = Some c \<and> c \<in> set COLOR_POOL) \<and>
         (\<exists>w c. currentWord (changeWordAndColor rw rc st) = Some w \<and> w \<in> set (WORD_POOL Colour) \<and>
                currentColor (changeWordAndColor rw rc st) = Some c \<and> c \<in> set COLOR_POOL)"
proof -
  have len: "2 \<le> length (WORD_POOL v)" "2 \<le> length COLOR_POOL"
    by (simp_all add: WORD_POOL_def COLOR_POOL_def split: variant.splits)
  have w1: "\<exists>w. randomElement rw (availableWords u c) = Some w \<and> w \<in> set (WORD_POOL u)" for u c
    using new_word_differs [OF assms(1,2), of u c] by blast
  have c1: "\<exists>c. randomElement rc (availableColors k) = Some c \<and> c \<in> set COLOR_POOL" for k
    using new_color_differs [OF assms(3,4), of k] by blast
  have w2: "\<exists>w. currentWord (changeWord v rw st) = Some w \<and> w \<in> set (WORD_POOL v)"
    using w1 [of v "currentWord st"] by (simp add: changeWord_def)
  have wc: "\<exists>w c. currentWord (changeWordAndColor rw rc st) = Some w \<and> w \<in> set (WORD_POOL Colour) \<and>
                currentColor (changeWordAndColor rw rc st) = Some c \<and> c \<in> set COLOR_POOL"
    using w1 [of Colour "currentWord st"] c1 [of "currentColor st"]
    by (simp add: changeWordAndColor_def)
  show ?thesis
    using len WORD_POOL_distinct COLOR_POOL_distinct availableWords_nonempty availableColors_nonempty
      randomElement_defined [OF assms(1,2) availableWords_nonempty, of v cur]
      randomElement_defined [OF assms(3,4) availableColors_nonempty, of col]
      w1 [of v cur] c1 [of col] w2 wc
    by simp
qed

theorem selection_total_witness:
  "availableWords Toggle (Some ''self'') \<noteq> [] \<and>
   randomElement (1/2) (availableWords Toggle (Some ''self'')) = Some ''memories'' \<and>
   randomElement (1/2) (availableColors (Some ''hsl(0 0% 100%)'')) = Some ''hsl(30 85% 75%)'' \<and>
   (\<exists>w. currentWord (changeWord Landing (1/2) initialState) = Some w \<and> w \<in> set (WORD_POOL Landing))"
proof -
  have r: "(0::real) \<le> 1/2" "(1/2::real) < 1" by simp_all
  have w: "randomElement (1/2) (availableWords Toggle (Some ''self'')) = Some ''memories''"
    by (simp add: availableWords_def WORD_POOL_def randomElement_def)
  have c: "randomElement (1/2) (availableColors (Some ''hsl(0 0% 100%)'')) = Some ''hsl(30 85% 75%)''"
    by (simp add: availableColors_def COLOR_POOL_def randomElement_def)
  show ?thesis
    using selection_total [OF r r, of Toggle "Some ''self''" initialState]
      selection_total [OF r r, of Landing "Some ''self''" initialState] w c
    by simp
qed

section \<open>Frames without a collision\<close>

lemma no_collision_inside:
  assumes "\<not> collisionDetected (updatePosition v vel d dt p)"
  shows "strictlyInside d (newPosition (candidate v vel dt p))"
  using assms
  by (simp add: updatePosition_def checkHorizontal_def checkVertical_def strictlyInside_def
      candidate_def split: if_splits)

lemma inside_no_collision:
  assumes "strictlyInside d (newPosition (candidate v vel dt p))"
  shows "updatePosition v vel d dt p = candidate v vel dt p"
  using assms
  by (simp add: updatePosition_def checkHorizontal_def checkVertical_def strictlyInside_def
      candidate_def)

lemma candidate_collisionDetected [simp]: "\<not> collisionDetected (candidate v vel dt p)"
  by (simp add: candidate_def)

lemma candidate_compose:
  "newPosition (candidate v vel dt' (newPosition (candidate v vel dt p))) =
   newPosition (candidate v vel (dt + dt') p)"
  by (simp add: candidate_def algebra_simps)

lemma candidate_zero: "newPosition (candidate v vel 0 p) = p"
  by (simp add: candidate_def)

lemma frames_no_collision:
  "noCollision v d dts (p, vel) \<Longrightarrow>
   frames v d dts (p, vel) = (newPosition (candidate v vel (sum_list dts) p), vel)"
proof (induction dts arbitrary: p)
  case Nil
  then show ?case by (simp add: candidate_zero)
next
  case (Cons dt dts)
  let ?f = "updatePosition v vel d dt p"
  from Cons.prems have nc: "\<not> collisionDetected ?f"
    by (simp add: Let_def)
  with Cons.prems have rest: "noCollision v d dts (newPosition ?f, vel)"
    by (simp add: Let_def)
  from nc have f: "?f = candidate v vel dt p"
    by (intro inside_no_collision no_collision_inside)
  from Cons.IH [OF rest] nc show ?case
    by (simp add: Let_def f candidate_compose)
qed

lemma frames_inside:
  "noCollision v d dts (p, vel) \<Longrightarrow> dts \<noteq> [] \<Longrightarrow> strictlyInside d (fst (frames v d dts (p, vel)))"
proof (induction dts arbitrary: p)
  case Nil
  then show ?case by simp
next
  case (Cons dt dts)
  let ?f = "updatePosition v vel d dt p"
  from Cons.prems have nc: "\<not> collisionDetected ?f"
    by (simp add: Let_def)
  with Cons.prems have rest: "noCollision v d dts (newPosition ?f, vel)"
    by (simp add: Let_def)
  from nc have ins: "strictlyInside d (newPosition (candidate v vel dt p))"
    by (rule no_collision_inside)
  then have f: "?f = candidate v vel dt p" by (rule inside_no_collision)
  show ?case
  proof (cases "dts = []")
    case True
    with ins f nc show ?thesis by (simp add: Let_def)
  next
    case False
    from Cons.IH [OF rest False] nc show ?thesis by (simp add: Let_def)
  qed
qed

text \<open>
  With sums and products taken exactly, a run of at least one frame in which no clamp
  fires ends at the start plus velocity times speed times the total elapsed time, which
  is where one frame with that total as \<open>deltaTime\<close> ends. The code rounds each
  frame's sum to a double, so there the two ends agree up to rounding only: from
  (100, 100) with velocity (1, 1) and speed 100, three frames of 16 ms end at
  104.79999999999998 and one frame of 48 ms at 104.8.
\<close>

lemma frames_exact_arithmetic:
  assumes "dts \<noteq> []" and "noCollision v d dts (p, vel)"
  shows "fst (frames v d dts (p, vel)) =
           \<lparr> pos_x = pos_x p + vel_x vel * SPEED v * sum_list dts,
             pos_y = pos_y p + vel_y vel * SPEED v * sum_list dts \<rparr> \<and>
         fst (frames v d dts (p, vel)) = newPosition (updatePosition v vel d (sum_list dts) p) \<and>
         \<not> collisionDetected (updatePosition v vel d (sum_list dts) p) \<and>
         fst (frames v d dts (p, vel)) = fst (frames v d [sum_list dts] (p, vel)) \<and>
         (dts' \<noteq> [] \<and> noCollision v d dts' (p, vel) \<and> sum_list dts' = sum_list dts \<longrightarrow>
            fst (frames v d dts' (p, vel)) = fst (frames v d dts (p, vel)))"
proof -
  have run: "fst (frames v d ds (p, vel)) = newPosition (candidate v vel (sum_list ds) p)"
    if "noCollision v d ds (p, vel)" for ds
    using frames_no_collision [OF that] by simp
  have "strictlyInside d (fst (frames v d dts (p, vel)))"
    using frames_inside [OF assms(2,1)] .
  then have "strictlyInside d (newPosition (candidate v vel (sum_list dts) p))"
    by (simp add: run [OF assms(2)])
  then have single: "updatePosition v vel d (sum_list dts) p = candidate v vel (sum_list dts) p"
    by (rule inside_no_collision)
  have formula: "newPosition (candidate v vel (sum_list dts) p) =
      \<lparr> pos_x = pos_x p + vel_x vel * SPEED v * sum_list dts,
        pos_y = pos_y p + vel_y vel * SPEED v * sum_list dts \<rparr>"
    by (simp add: candidate_def)
  have one: "fst (frames v d [sum_list dts] (p, vel)) = newPosition (candidate v vel (sum_list dts) p)"
    by (simp add: Let_def single)
  have other: "fst (frames v d dts' (p, vel)) = fst (frames v d dts (p, vel))"
    if "noCollision v d dts' (p, vel)" and "sum_list dts' = sum_list dts"
    using that by (simp add: run [OF assms(2)] run [OF that(1)])
  show ?thesis
    unfolding run [OF assms(2)] single one using formula other
    by (simp add: run [OF assms(2)])
qed

section \<open>The first tick\<close>

lemma first_tick_deltaTime: "lastTimeRef st = 0 \<Longrightarrow> deltaTimeOf t st = 0"
  by (simp add: deltaTimeOf_def)

lemma animate_lastTimeRef [simp]: "lastTimeRef (animate v rw rc t st) = t"
  by (simp add: animate_def Let_def)

lemma animate_currentColor:
  "currentColor (animate v rw rc t st) =
   (if collisionDetected (updatePosition v (velocity st) (dimensions st) (deltaTimeOf t st) (position st))
    then currentColor (changeLabel v rw rc st) else currentColor st)"
  by (simp add: animate_def Let_def changeLabel_def changeWord_def changeWordAndColor_def
      split: variant.splits)

lemma zero_frame_collision:
  "collisionDetected (updatePosition v vel d 0 p) = (\<not> strictlyInside d p)"
proof (cases "strictlyInside d p")
  case True
  then have "strictlyInside d (newPosition (candidate v vel 0 p))" by (simp add: candidate_zero)
  then have "updatePosition v vel d 0 p = candidate v vel 0 p" by (rule inside_no_collision)
  with True show ?thesis by simp
next
  case False
  have "\<not> collisionDetected (updatePosition v vel d 0 p) \<Longrightarrow> strictlyInside d p"
    using no_collision_inside [of v vel d 0 p] by (simp add: candidate_zero)
  with False show ?thesis by blast
qed

text \<open>
  C6, as amended. On the first tick (\<open>lastTimeRef\<close> still 0) the timestamp is recorded
  and \<open>deltaTime\<close> is 0, so the candidate position is the previous position; the
  boundary check runs on it all the same. A collision is detected exactly when the
  previous position is not strictly inside the bounds; when it is strictly inside,
  position, velocity, word and colour are left as they were.
\<close>

theorem first_tick_baseline:
  assumes "lastTimeRef st = 0"
  shows "deltaTimeOf t st = 0 \<and>
         lastTimeRef (animate v rw rc t st) = t \<and>
         collisionDetected
           (updatePosition v (velocity st) (dimensions st) (deltaTimeOf t st) (position st)) =
           (\<not> strictlyInside (dimensions st) (position st)) \<and>
         (strictlyInside (dimensions st) (position st) \<longrightarrow>
            position (animate v rw rc t st) = position st \<and>
            velocity (animate v rw rc t st) = velocity st \<and>
            currentWord (animate v rw rc t st) = currentWord st \<and>
            currentColor (animate v rw rc t st) = currentColor st)"
proof -
  have dt: "deltaTimeOf t st = 0" using assms by (rule first_tick_deltaTime)
  have col: "collisionDetected
           (updatePosition v (velocity st) (dimensions st) (deltaTimeOf t st) (position st)) =
           (\<not> strictlyInside (dimensions st) (position st))"
    unfolding dt by (rule zero_frame_collision)
  have same: "position (animate v rw rc t st) = position st \<and>
            velocity (animate v rw rc t st) = velocity st \<and>
            currentWord (animate v rw rc t st) = currentWord st \<and>
            currentColor (animate v rw rc t st) = currentColor st"
    if ins: "strictlyInside (dimensions st) (position st)"
  proof -
    from ins have "strictlyInside (dimensions st) (newPosition (candidate v (velocity st) 0 (position st)))"
      by (simp add: candidate_zero)
    then have f: "updatePosition v (velocity st) (dimensions st) 0 (position st) =
        candidate v (velocity st) 0 (position st)"
      by (rule inside_no_collision)
    show ?thesis
      unfolding animate_position animate_velocity animate_currentWord animate_currentColor Let_def dt f
      by (simp add: candidate_zero)
  qed
  from dt col same show ?thesis by simp
qed

theorem first_tick_baseline_witness:
  "lastTimeRef (scenarioState 50 50 1 1 0) = 0 \<and>
   strictlyInside (dimensions (scenarioState 50 50 1 1 0)) (position (scenarioState 50 50 1 1 0)) \<and>
   lastTimeRef (animate Toggle (1/2) (1/2) 1000 (scenarioState 50 50 1 1 0)) = 1000 \<and>
   position (animate Toggle (1/2) (1/2) 1000 (scenarioState 50 50 1 1 0)) = \<lparr>pos_x = 50, pos_y = 50\<rparr> \<and>
   velocity (animate Toggle (1/2) (1/2) 1000 (scenarioState 50 50 1 1 0)) = \<lparr>vel_x = 1, vel_y = 1\<rparr> \<and>
   currentWord (animate Toggle (1/2) (1/2) 1000 (scenarioState 50 50 1 1 0)) = Some ''self''"
proof -
  have l: "lastTimeRef (scenarioState 50 50 1 1 0) = 0"
    by (simp add: scenarioState_def)
  have i: "strictlyInside (dimensions (scenarioState 50 50 1 1 0)) (position (scenarioState 50 50 1 1 0))"
    by (simp add: scenarioState_def scenarioDimensions_def strictlyInside_def)
  have f: "position (scenarioState 50 50 1 1 0) = \<lparr>pos_x = 50, pos_y = 50\<rparr>"
    "velocity (scenarioState 50 50 1 1 0) = \<lparr>vel_x = 1, vel_y = 1\<rparr>"
    "currentWord (scenarioState 50 50 1 1 0) = Some ''self''"
    by (simp_all add: scenarioState_def initialState_def)
  show ?thesis
    using first_tick_baseline [OF l, of 1000 Toggle "1/2" "1/2"] l i f
    by (simp del: animate_position)
qed

text \<open>
  C6, as stated, fails when the first tick finds the word on a wall: at (0, 10) with
  velocity (-1, 1) the position stays, but the velocity becomes (1, 1) and the word changes.
\<close>

theorem first_tick_baseline_counterexample:
  "lastTimeRef (scenarioState 0 10 (-1) 1 0) = 0 \<and>
   velocity (scenarioState 0 10 (-1) 1 0) = \<lparr>vel_x = -1, vel_y = 1\<rparr> \<and>
   velocity (animate Toggle (1/2) (1/2) 1000 (scenarioState 0 10 (-1) 1 0)) = \<lparr>vel_x = 1, vel_y = 1\<rparr> \<and>
   currentWord (scenarioState 0 10 (-1) 1 0) = Some ''self'' \<and>
   currentWord (animate Toggle (1/2) (1/2) 1000 (scenarioState 0 10 (-1) 1 0)) = Some ''memories''"
proof -
  let ?s = "scenarioState 0 10 (-1) 1 0"
  have fields: "lastTimeRef ?s = 0" "velocity ?s = \<lparr>vel_x = -1, vel_y = 1\<rparr>"
    "currentWord ?s = Some ''self''" "position ?s = \<lparr>pos_x = 0, pos_y = 10\<rparr>"
    "dimensions ?s = scenarioDimensions"
    by (simp_all add: scenarioState_def initialState_def)
  have dt: "deltaTimeOf 1000 ?s = 0"
    using fields(1) by (rule first_tick_deltaTime)
  have f: "updatePosition Toggle \<lparr>vel_x = -1, vel_y = 1\<rparr> scenarioDimensions 0 \<lparr>pos_x = 0, pos_y = 10\<rparr> =
      \<lparr>newPosition = \<lparr>pos_x = 0, pos_y = 10\<rparr>, newVelocity = \<lparr>vel_x = 1, vel_y = 1\<rparr>,
       collisionDetected = True\<rparr>"
    by (simp add: updatePosition_def checkHorizontal_def checkVertical_def candidate_def
        scenarioDimensions_def)
  have w: "randomElement (1/2) (availableWords Toggle (Some ''self'')) = Some ''memories''"
    by (simp add: availableWords_def WORD_POOL_def randomElement_def)
  show ?thesis
    unfolding animate_velocity animate_currentWord Let_def dt fields f w by simp
qed

section \<open>The frame queue\<close>

lemma animate_queue [simp]:
  "pending (animate v rw rc t st) = pending st @ [nextHandle st]"
  "animationRef (animate v rw rc t st) = Some (nextHandle st)"
  "nextHandle (animate v rw rc t st) = Suc (nextHandle st)"
  "hasCleanup (animate v rw rc t st) = hasCleanup st"
  "isMotionEnabled (animate v rw rc t st) = isMotionEnabled st"
  "dimensions (animate v rw rc t st) = dimensions st"
  by (simp_all add: animate_def Let_def requestAnimationFrame_def)

lemma queueInv_cases:
  assumes "queueInv v st"
  shows "0 < nextHandle st \<and>
         (pending st = [] \<or>
          pending st = [the (animationRef st)] \<and> animationRef st \<noteq> None \<and>
          the (animationRef st) \<noteq> 0 \<and> hasCleanup st \<and>
          (isMotionEnabled st \<or> \<not> hasMotionToggle v))"
  using assms by (auto simp: queueInv_def split: list.splits)

lemma queueInv_empty: "0 < nextHandle st \<Longrightarrow> pending st = [] \<Longrightarrow> queueInv v st"
  by (simp add: queueInv_def)

lemma queueInv_single:
  "0 < nextHandle st \<Longrightarrow> pending st = [h] \<Longrightarrow> animationRef st = Some h \<Longrightarrow> h \<noteq> 0 \<Longrightarrow>
   hasCleanup st \<Longrightarrow> isMotionEnabled st \<or> \<not> hasMotionToggle v \<Longrightarrow> queueInv v st"
  by (simp add: queueInv_def)

lemma refresh_idle: "pending st = [] \<Longrightarrow> refresh v ev st = st"
  by (cases ev) simp

lemma refreshes_idle: "pending st = [] \<Longrightarrow> refreshes v ts st = st"
  by (induction ts) (simp_all add: refreshes_def refresh_idle)

lemma rerun_clears:
  assumes "queueInv v st"
  shows "pending (if hasCleanup st then animationCleanup st else st) = []"
  using queueInv_cases [OF assms]
  by (auto simp: animationCleanup_def cancelAnimationFrame_def split: option.splits)

lemma animationCleanup_fields [simp]:
  "currentWord (animationCleanup st) = currentWord st"
  "currentColor (animationCleanup st) = currentColor st"
  "position (animationCleanup st) = position st"
  "velocity (animationCleanup st) = velocity st"
  "dimensions (animationCleanup st) = dimensions st"
  "isMotionEnabled (animationCleanup st) = isMotionEnabled st"
  "lastTimeRef (animationCleanup st) = lastTimeRef st"
  "nextHandle (animationCleanup st) = nextHandle st"
  "animationRef (animationCleanup st) = animationRef st"
  by (simp_all add: animationCleanup_def cancelAnimationFrame_def split: option.splits)

lemma animationEffect_fields [simp]:
  "currentWord (animationEffect v st) = currentWord st"
  "currentColor (animationEffect v st) = currentColor st"
  "position (animationEffect v st) = position st"
  "velocity (animationEffect v st) = velocity st"
  "dimensions (animationEffect v st) = dimensions st"
  "isMotionEnabled (animationEffect v st) = isMotionEnabled st"
  "lastTimeRef (animationEffect v st) = lastTimeRef st"
  by (simp_all add: animationEffect_def)

lemma rerunAnimationEffect_fields [simp]:
  "currentWord (rerunAnimationEffect v st) = currentWord st"
  "currentColor (rerunAnimationEffect v st) = currentColor st"
  "position (rerunAnimationEffect v st) = position st"
  "velocity (rerunAnimationEffect v st) = velocity st"
  "dimensions (rerunAnimationEffect v st) = dimensions st"
  "isMotionEnabled (rerunAnimationEffect v st) = isMotionEnabled st"
  "lastTimeRef (rerunAnimationEffect v st) = lastTimeRef st"
  by (simp_all add: rerunAnimationEffect_def)

lemma animationEffect_idle:
  assumes "hasMotionToggle v \<and> \<not> isMotionEnabled st \<or>
           width (dimensions st) \<le> 0 \<or> height (dimensions st) \<le> 0"
  shows "pending (animationEffect v st) = pending st"
    and "animationRef (animationEffect v st) = animationRef st"
    and "nextHandle (animationEffect v st) = nextHandle st"
  using assms by (auto simp: animationEffect_def)

lemma rerun_idle:
  assumes "queueInv v st"
    and "hasMotionToggle v \<and> \<not> isMotionEnabled st \<or>
         width (dimensions st) \<le> 0 \<or> height (dimensions st) \<le> 0"
  shows "pending (rerunAnimationEffect v st) = []"
proof -
  let ?c = "if hasCleanup st then animationCleanup st else st"
  have same: "isMotionEnabled ?c = isMotionEnabled st" "dimensions ?c = dimensions st"
    by simp_all
  have "pending (animationEffect v ?c) = pending ?c"
    by (rule animationEffect_idle(1)) (use assms(2) in \<open>simp only: same\<close>)
  then show ?thesis
    by (simp add: rerunAnimationEffect_def rerun_clears [OF assms(1)])
qed

text \<open>The invariant holds at mount and every operation of the component keeps it.\<close>

lemma queueInv_initialState: "queueInv v initialState"
  by (simp add: queueInv_def initialState_def)

lemma queueInv_animationEffect:
  assumes "pending c = []" and "0 < nextHandle c"
  shows "queueInv v (animationEffect v c)"
  using assms by (auto simp: animationEffect_def queueInv_def requestAnimationFrame_def)

lemma queueInv_rerun:
  assumes "queueInv v st"
  shows "queueInv v (rerunAnimationEffect v st)"
  unfolding rerunAnimationEffect_def
proof (rule queueInv_animationEffect)
  show "pending (if hasCleanup st then animationCleanup st else st) = []"
    using assms by (rule rerun_clears)
  show "0 < nextHandle (if hasCleanup st then animationCleanup st else st)"
    using queueInv_cases [OF assms] by simp
qed

lemma queueInv_dimensions: "queueInv v (st\<lparr>dimensions := d\<rparr>) = queueInv v st"
  by (simp add: queueInv_def cong: list.case_cong)

lemma queueInv_setDimensions: "queueInv v st \<Longrightarrow> queueInv v (setDimensions v d st)"
  unfolding setDimensions_def by (rule queueInv_rerun) (simp add: queueInv_dimensions)

lemma queueInv_motion_flag:
  assumes "queueInv v st" and "hasMotionToggle v" and "\<not> isMotionEnabled st"
  shows "queueInv v (st\<lparr>isMotionEnabled := b\<rparr>)" and "pending st = []"
  using queueInv_cases [OF assms(1)] assms(2,3) by (auto simp: queueInv_def)

lemma queueInv_changeLabel: "queueInv v (changeLabel u rw rc st) = queueInv v st"
  by (simp add: queueInv_def cong: list.case_cong)

lemma queueInv_refresh:
  assumes "queueInv v st"
  shows "queueInv v (refresh v ev st)"
proof (cases ev)
  case (fields t rw rc)
  from queueInv_cases [OF assms] show ?thesis
    by (auto simp: fields queueInv_def)
qed

section \<open>Motion disabled, container not measured\<close>

lemma animationCleanup_motion_flag:
  "animationCleanup (st\<lparr>isMotionEnabled := b\<rparr>) = (animationCleanup st)\<lparr>isMotionEnabled := b\<rparr>"
  by (simp add: animationCleanup_def cancelAnimationFrame_def split: option.splits)

lemma setIsMotionEnabled_changed:
  assumes "hasMotionToggle v" and "b \<noteq> isMotionEnabled st"
  shows "setIsMotionEnabled v b st =
         animationEffect v ((if hasCleanup st then animationCleanup st else st)\<lparr>isMotionEnabled := b\<rparr>)"
proof -
  have "setIsMotionEnabled v b st = rerunAnimationEffect v (st\<lparr>isMotionEnabled := b\<rparr>)"
    using assms by (simp add: setIsMotionEnabled_def)
  also have "\<dots> = animationEffect v
      ((if hasCleanup st then animationCleanup st else st)\<lparr>isMotionEnabled := b\<rparr>)"
    by (cases "hasCleanup st") (simp_all add: rerunAnimationEffect_def animationCleanup_motion_flag)
  finally show ?thesis .
qed

lemma queueInv_setIsMotionEnabled:
  assumes "queueInv v st"
  shows "queueInv v (setIsMotionEnabled v b st)"
proof (cases "hasMotionToggle v \<and> b \<noteq> isMotionEnabled st")
  case True
  let ?c = "(if hasCleanup st then animationCleanup st else st)\<lparr>isMotionEnabled := b\<rparr>"
  have "pending ?c = []" using rerun_clears [OF assms] by simp
  moreover have "0 < nextHandle ?c" using queueInv_cases [OF assms] by simp
  ultimately have "queueInv v (animationEffect v ?c)" by (rule queueInv_animationEffect)
  with True show ?thesis by (simp add: setIsMotionEnabled_changed)
next
  case False
  with assms show ?thesis by (auto simp: setIsMotionEnabled_def)
qed

lemma disabled_pending:
  assumes "queueInv v st" and "hasMotionToggle v"
  shows "pending (setIsMotionEnabled v False st) = []"
    and "\<not> isMotionEnabled (setIsMotionEnabled v False st)"
    and "position (setIsMotionEnabled v False st) = position st"
proof -
  show "pending (setIsMotionEnabled v False st) = []"
  proof (cases "isMotionEnabled st")
    case True
    let ?c = "(if hasCleanup st then animationCleanup st else st)\<lparr>isMotionEnabled := False\<rparr>"
    have "pending ?c = []" using rerun_clears [OF assms(1)] by simp
    moreover have "pending (animationEffect v ?c) = pending ?c"
      by (rule animationEffect_idle(1)) (simp add: assms(2))
    ultimately show ?thesis using True assms(2) by (simp add: setIsMotionEnabled_changed)
  next
    case False
    with queueInv_motion_flag(2) [OF assms] show ?thesis by (simp add: setIsMotionEnabled_def)
  qed
  show "\<not> isMotionEnabled (setIsMotionEnabled v False st)"
    using assms(2) by (auto simp: setIsMotionEnabled_def)
  show "position (setIsMotionEnabled v False st) = position st"
    by (simp add: setIsMotionEnabled_def)
qed

text \<open>
  C8. In the two copies with a motion flag, from any state the component reaches: once
  \<open>isMotionEnabled\<close> is set to false no frame callback is scheduled, so any number of
  display refreshes leaves the whole state, and with it the position, as it was when
  motion was disabled; measuring the dimensions again does not start the loop either.
\<close>

theorem motion_disabled_idle:
  assumes "queueInv v st" and "hasMotionToggle v"
  shows "pending (setIsMotionEnabled v False st) = [] \<and>
         position (setIsMotionEnabled v False st) = position st \<and>
         refreshes v ts (setIsMotionEnabled v False st) = setIsMotionEnabled v False st \<and>
         position (refreshes v ts (setIsMotionEnabled v False st)) = position st \<and>
         pending (setDimensions v d (setIsMotionEnabled v False st)) = [] \<and>
         position (refreshes v ts (setDimensions v d (setIsMotionEnabled v False st))) = position st"
proof -
  let ?off = "setIsMotionEnabled v False st"
  note off = disabled_pending [OF assms]
  have idle: "refreshes v ts ?off = ?off"
    using off(1) by (rule refreshes_idle)
  have inv: "queueInv v (?off\<lparr>dimensions := d\<rparr>)"
    using queueInv_setIsMotionEnabled [OF assms(1)] by (simp add: queueInv_dimensions)
  have resize: "pending (setDimensions v d ?off) = []"
    unfolding setDimensions_def
    by (rule rerun_idle [OF inv]) (simp add: assms(2) off(2))
  have idle2: "refreshes v ts (setDimensions v d ?off) = setDimensions v d ?off"
    using resize by (rule refreshes_idle)
  have pos2: "position (setDimensions v d ?off) = position st"
    by (simp add: setDimensions_def off(3))
  show ?thesis
    using off(1,3) resize pos2 by (simp add: idle idle2)
qed

theorem motion_disabled_idle_witness:
  "queueInv Toggle (scenarioState 480 10 1 1 1000) \<and> hasMotionToggle Toggle \<and>
   pending (scenarioState 480 10 1 1 1000) = [1] \<and>
   position (refreshes Toggle [(1100, 1/2, 1/2)] (scenarioState 480 10 1 1 1000)) =
     \<lparr>pos_x = 400, pos_y = 20\<rparr> \<and>
   pending (setIsMotionEnabled Toggle False (scenarioState 480 10 1 1 1000)) = [] \<and>
   position (refreshes Toggle [(1100, 1/2, 1/2), (1200, 1/2, 1/2)]
     (setIsMotionEnabled Toggle False (scenarioState 480 10 1 1 1000))) = \<lparr>pos_x = 480, pos_y = 10\<rparr>"
proof -
  let ?s = "scenarioState 480 10 1 1 1000"
  have inv: "queueInv Toggle ?s"
    by (simp add: queueInv_def scenarioState_def initialState_def hasMotionToggle_def)
  have tog: "hasMotionToggle Toggle" by (simp add: hasMotionToggle_def)
  have pen: "pending ?s = [1]" by (simp add: scenarioState_def)
  have pos: "position ?s = \<lparr>pos_x = 480, pos_y = 10\<rparr>" by (simp add: scenarioState_def)
  have "position (animate Toggle (1/2) (1/2) 1100 (?s\<lparr>pending := []\<rparr>)) = \<lparr>pos_x = 400, pos_y = 20\<rparr>"
    by (simp add: scenarioState_def scenarioDimensions_def deltaTimeOf_def updatePosition_def
        checkHorizontal_def checkVertical_def candidate_def SPEED_def)
  then have moved: "position (refreshes Toggle [(1100, 1/2, 1/2)] ?s) = \<lparr>pos_x = 400, pos_y = 20\<rparr>"
    by (simp add: refreshes_def pen del: animate_position)
  show ?thesis
    using motion_disabled_idle [where ts = "[(1100, 1/2, 1/2), (1200, 1/2, 1/2)]", OF inv tog]
      inv tog pen pos moved
    by simp
qed

text \<open>
  C7, as amended. While the container's width or height is 0 (not positive), measuring the
  dimensions leaves no frame callback scheduled: position, velocity, word, colour and the
  timestamp stay as they were, and any number of display refreshes changes nothing. The
  effect's body alone schedules nothing. The label's own width and height are not looked
  at.
\<close>

theorem idle_without_container_size:
  assumes "queueInv v st" and "width d \<le> 0 \<or> height d \<le> 0"
  shows "pending (animationEffect v (st\<lparr>dimensions := d\<rparr>)) = pending st \<and>
         pending (setDimensions v d st) = [] \<and>
         position (setDimensions v d st) = position st \<and>
         velocity (setDimensions v d st) = velocity st \<and>
         currentWord (setDimensions v d st) = currentWord st \<and>
         currentColor (setDimensions v d st) = currentColor st \<and>
         lastTimeRef (setDimensions v d st) = lastTimeRef st \<and>
         refreshes v ts (setDimensions v d st) = setDimensions v d st"
proof -
  have body: "pending (animationEffect v (st\<lparr>dimensions := d\<rparr>)) = pending (st\<lparr>dimensions := d\<rparr>)"
    by (rule animationEffect_idle(1)) (use assms(2) in simp)
  have inv: "queueInv v (st\<lparr>dimensions := d\<rparr>)"
    using assms(1) by (simp add: queueInv_dimensions)
  have none: "pending (setDimensions v d st) = []"
    unfolding setDimensions_def
    by (rule rerun_idle [OF inv]) (use assms(2) in simp)
  have idle: "refreshes v ts (setDimensions v d st) = setDimensions v d st"
    using none by (rule refreshes_idle)
  have same: "position (setDimensions v d st) = position st"
    "velocity (setDimensions v d st) = velocity st"
    "currentWord (setDimensions v d st) = currentWord st"
    "currentColor (setDimensions v d st) = currentColor st"
    "lastTimeRef (setDimensions v d st) = lastTimeRef st"
    by (simp_all add: setDimensions_def)
  show ?thesis
    using body none idle same by simp
qed

theorem idle_without_container_size_witness:
  "queueInv Colour initialState \<and>
   pending (setDimensions Colour \<lparr>width = 0, height = 300, wordWidth = 100, wordHeight = 50\<rparr>
     initialState) = [] \<and>
   position (refreshes Colour [(1000, 1/2, 1/2), (1016, 1/2, 1/2)]
     (setDimensions Colour \<lparr>width = 0, height = 300, wordWidth = 100, wordHeight = 50\<rparr>
       initialState)) = \<lparr>pos_x = 50, pos_y = 50\<rparr>"
proof -
  let ?d = "\<lparr>width = 0, height = 300, wordWidth = 100, wordHeight = 50\<rparr>"
  have d: "width ?d \<le> 0 \<or> height ?d \<le> 0" by simp
  have p: "position initialState = \<lparr>pos_x = 50, pos_y = 50\<rparr>" by (simp add: initialState_def)
  show ?thesis
    using idle_without_container_size [where v = Colour
        and ts = "[(1000, 1/2, 1/2), (1016, 1/2, 1/2)]", OF queueInv_initialState d]
      queueInv_initialState [of Colour] p
    by simp
qed

text \<open>
  C7, as stated, fails for a label that measures 0 by 0 inside a container 500 by 300: the
  effect schedules a frame, and the refresh that runs it records the timestamp and
  schedules the next one.
\<close>

theorem idle_without_container_size_counterexample:
  "wordWidth \<lparr>width = 500, height = 300, wordWidth = 0, wordHeight = 0\<rparr> = 0 \<and>
   pending initialState = [] \<and>
   pending (setDimensions Toggle \<lparr>width = 500, height = 300, wordWidth = 0, wordHeight = 0\<rparr>
     initialState) = [1] \<and>
   lastTimeRef (setDimensions Toggle \<lparr>width = 500, height = 300, wordWidth = 0, wordHeight = 0\<rparr>
     initialState) = 0 \<and>
   lastTimeRef (refresh Toggle (1000, 1/2, 1/2)
     (setDimensions Toggle \<lparr>width = 500, height = 300, wordWidth = 0, wordHeight = 0\<rparr>
       initialState)) = 1000 \<and>
   pending (refresh Toggle (1000, 1/2, 1/2)
     (setDimensions Toggle \<lparr>width = 500, height = 300, wordWidth = 0, wordHeight = 0\<rparr>
       initialState)) = [2]"
proof -
  let ?d = "\<lparr>width = 500, height = 300, wordWidth = 0, wordHeight = 0\<rparr>"
  have p: "pending (setDimensions Toggle ?d initialState) = [1]"
    and n: "nextHandle (setDimensions Toggle ?d initialState) = 2"
    by (simp_all add: setDimensions_def rerunAnimationEffect_def animationEffect_def
        requestAnimationFrame_def initialState_def hasMotionToggle_def)
  have l: "lastTimeRef (setDimensions Toggle ?d initialState) = 0"
    by (simp add: setDimensions_def initialState_def)
  have i: "pending initialState = []" by (simp add: initialState_def)
  show ?thesis
    using p n l i by simp
qed

section \<open>What holds in every state of a run\<close>

lemma updatePosition_magnitude:
  "\<bar>vel_x (newVelocity (updatePosition v vel d dt p))\<bar> = \<bar>vel_x vel\<bar>"
  "\<bar>vel_y (newVelocity (updatePosition v vel d dt p))\<bar> = \<bar>vel_y vel\<bar>"
  by (simp_all add: updatePosition_def checkHorizontal_abs_vx checkVertical_abs_vy)

lemma updatePosition_nonzero:
  assumes "vel_x vel \<noteq> 0 \<and> vel_y vel \<noteq> 0"
  shows "vel_x (newVelocity (updatePosition v vel d dt p)) \<noteq> 0 \<and>
         vel_y (newVelocity (updatePosition v vel d dt p)) \<noteq> 0"
  using assms updatePosition_magnitude [of v vel d dt p] by auto

lemma animate_nonzero:
  assumes "vel_x (velocity st) \<noteq> 0 \<and> vel_y (velocity st) \<noteq> 0"
  shows "vel_x (velocity (animate v rw rc t st)) \<noteq> 0 \<and> vel_y (velocity (animate v rw rc t st)) \<noteq> 0"
  using assms updatePosition_nonzero [OF assms] by (simp add: animate_velocity Let_def)

lemma fold_animate_nonzero:
  "vel_x (velocity st) \<noteq> 0 \<and> vel_y (velocity st) \<noteq> 0 \<Longrightarrow>
   vel_x (velocity (fold (\<lambda>h s. animate v rw rc t s) hs st)) \<noteq> 0 \<and>
   vel_y (velocity (fold (\<lambda>h s. animate v rw rc t s) hs st)) \<noteq> 0"
proof (induction hs arbitrary: st)
  case Nil
  then show ?case by simp
next
  case (Cons h hs)
  from Cons.prems have "vel_x (velocity (animate v rw rc t st)) \<noteq> 0 \<and>
      vel_y (velocity (animate v rw rc t st)) \<noteq> 0"
    by (rule animate_nonzero)
  then show ?case using Cons.IH by simp
qed

lemma setIsMotionEnabled_fields [simp]:
  "position (setIsMotionEnabled v b st) = position st"
  "velocity (setIsMotionEnabled v b st) = velocity st"
  "currentWord (setIsMotionEnabled v b st) = currentWord st"
  "dimensions (setIsMotionEnabled v b st) = dimensions st"
  by (simp_all add: setIsMotionEnabled_def)

lemma initial_angle:
  assumes "0 \<le> r" and "r < 1"
  shows "0 < cos ((r * 30 + 30) * pi / 180) \<and> 0 < sin ((r * 30 + 30) * pi / 180)"
proof -
  let ?a = "(r * 30 + 30) * pi / 180"
  have "pi * 30 \<le> pi * (r * 30 + 30)" using assms(1) by (intro mult_left_mono) simp_all
  then have lo: "pi / 6 \<le> ?a" by (simp add: field_simps)
  have "pi * (r * 30 + 30) < pi * 60" using assms(2) by (intro mult_strict_left_mono) simp_all
  then have hi: "?a < pi / 3" by (simp add: field_simps)
  have p: "0 < pi" by simp
  from lo hi p have c1: "- (pi / 2) < ?a" and c2: "?a < pi / 2" and s1: "0 < ?a" and s2: "?a < pi"
    by linarith+
  from c1 c2 have "0 < cos ?a" by (rule cos_gt_zero_pi)
  moreover from s1 s2 have "0 < sin ?a" by (rule sin_gt_zero)
  ultimately show ?thesis by blast
qed

lemma initEffect_nonzero:
  assumes "0 \<le> r3" and "r3 < 1"
    and "vel_x (velocity st) \<noteq> 0 \<and> vel_y (velocity st) \<noteq> 0"
  shows "vel_x (velocity (initEffect measured r1 r2 r3 r4 r5 st)) \<noteq> 0 \<and>
         vel_y (velocity (initEffect measured r1 r2 r3 r4 r5 st)) \<noteq> 0"
  using initial_angle [OF assms(1,2)] assms(3)
  by (simp add: initEffect_def Let_def split: option.splits)

lemma initEffect_queue [simp]:
  "pending (initEffect measured r1 r2 r3 r4 r5 st) = pending st"
  "nextHandle (initEffect measured r1 r2 r3 r4 r5 st) = nextHandle st"
  by (simp_all add: initEffect_def Let_def split: option.splits)

text \<open>
  No velocity component is ever 0 in a run: the angle drawn at mount lies between 30 and
  60 degrees, and frames keep the magnitude of each component.
\<close>

lemma reachable_velocity_nonzero:
  "reachable v st \<Longrightarrow> vel_x (velocity st) \<noteq> 0 \<and> vel_y (velocity st) \<noteq> 0"
proof (induction rule: reachable.induct)
  case start
  show ?case by (simp add: initialState_def)
next
  case (mount r3 measured r1 r2 r4 r5)
  then show ?case
    by (intro initEffect_nonzero) (simp_all add: initialState_def)
next
  case (resize st d)
  then show ?case by (simp add: setDimensions_def)
next
  case (tick st rw rc currentTime)
  have "vel_x (velocity (st\<lparr>pending := []\<rparr>)) \<noteq> 0 \<and> vel_y (velocity (st\<lparr>pending := []\<rparr>)) \<noteq> 0"
    using tick.IH by simp
  then show ?case
    unfolding refresh.simps by (rule fold_animate_nonzero)
next
  case (toggle st b)
  then show ?case by simp
next
  case (change st rw rc)
  then show ?case by simp
qed

text \<open>The frame queue's invariant holds in every state of a run.\<close>

lemma reachable_queueInv: "reachable v st \<Longrightarrow> queueInv v st"
proof (induction rule: reachable.induct)
  case start
  show ?case by (rule queueInv_initialState)
next
  case (mount r3 measured r1 r2 r4 r5)
  show ?case by (rule queueInv_empty) (simp_all add: initialState_def)
next
  case (resize st d)
  from resize.IH show ?case by (rule queueInv_setDimensions)
next
  case (tick st rw rc currentTime)
  from tick.IH show ?case by (rule queueInv_refresh)
next
  case (toggle st b)
  from toggle.IH show ?case by (rule queueInv_setIsMotionEnabled)
next
  case (change st rw rc)
  from change.IH show ?case by (simp add: queueInv_changeLabel)
qed

text \<open>One call of \<open>animate\<close> is one frame of \<open>frames\<close>.\<close>

lemma animate_is_frame:
  "(position (animate v rw rc t st), velocity (animate v rw rc t st)) =
   frames v (dimensions st) [deltaTimeOf t st] (position st, velocity st)"
  by (simp add: animate_velocity Let_def)

text \<open>
  With a velocity of a run the reflection is strict: the component that was reflected
  points away from the wall.
\<close>

lemma reflection_strict_in_runs:
  assumes "reachable v st"
  shows "(clampedLeft v (velocity st) dt p \<longrightarrow>
            0 < vel_x (newVelocity (updatePosition v (velocity st) d dt p))) \<and>
         (clampedRight v (velocity st) d dt p \<longrightarrow>
            vel_x (newVelocity (updatePosition v (velocity st) d dt p)) < 0) \<and>
         (clampedTop v (velocity st) dt p \<longrightarrow>
            0 < vel_y (newVelocity (updatePosition v (velocity st) d dt p))) \<and>
         (clampedBottom v (velocity st) d dt p \<longrightarrow>
            vel_y (newVelocity (updatePosition v (velocity st) d dt p)) < 0)"
proof -
  from assms have nz: "vel_x (velocity st) \<noteq> 0" "vel_y (velocity st) \<noteq> 0"
    using reachable_velocity_nonzero by blast+
  have "clampedLeft v (velocity st) dt p \<Longrightarrow>
      vel_x (newVelocity (updatePosition v (velocity st) d dt p)) = \<bar>vel_x (velocity st)\<bar>"
    by (simp add: clampedLeft_def updatePosition_def checkHorizontal_def)
  moreover have "clampedRight v (velocity st) d dt p \<Longrightarrow>
      vel_x (newVelocity (updatePosition v (velocity st) d dt p)) = - \<bar>vel_x (velocity st)\<bar>"
    by (simp add: clampedRight_def updatePosition_def checkHorizontal_def)
  moreover have "clampedTop v (velocity st) dt p \<Longrightarrow>
      vel_y (newVelocity (updatePosition v (velocity st) d dt p)) = \<bar>vel_y (velocity st)\<bar>"
    by (simp add: clampedTop_def updatePosition_def checkVertical_def)
  moreover have "clampedBottom v (velocity st) d dt p \<Longrightarrow>
      vel_y (newVelocity (updatePosition v (velocity st) d dt p)) = - \<bar>vel_y (velocity st)\<bar>"
    by (simp add: clampedBottom_def updatePosition_def checkVertical_def)
  ultimately show ?thesis using nz by simp
qed

section \<open>The reflection law on the frames of a run\<close>

lemma clamp_collision:
  "clampedLeft v vel dt p \<Longrightarrow> collisionDetected (updatePosition v vel d dt p)"
  "clampedRight v vel d dt p \<Longrightarrow> collisionDetected (updatePosition v vel d dt p)"
  "clampedTop v vel dt p \<Longrightarrow> collisionDetected (updatePosition v vel d dt p)"
  "clampedBottom v vel d dt p \<Longrightarrow> collisionDetected (updatePosition v vel d dt p)"
  by (simp_all add: clampedLeft_def clampedRight_def clampedTop_def clampedBottom_def
      updatePosition_def checkHorizontal_def checkVertical_def)

lemma clamp_position:
  "clampedLeft v vel dt p \<Longrightarrow> pos_x (newPosition (updatePosition v vel d dt p)) = 0"
  "clampedRight v vel d dt p \<Longrightarrow>
     pos_x (newPosition (updatePosition v vel d dt p)) = width d - wordWidth d"
  "clampedTop v vel dt p \<Longrightarrow> pos_y (newPosition (updatePosition v vel d dt p)) = 0"
  "clampedBottom v vel d dt p \<Longrightarrow>
     pos_y (newPosition (updatePosition v vel d dt p)) = height d - wordHeight d"
  by (simp_all add: clampedLeft_def clampedRight_def clampedTop_def clampedBottom_def
      updatePosition_def checkHorizontal_def checkVertical_def)

text \<open>
  C3. In every frame of a run: if x is clamped to 0, the velocity after the frame has
  vx > 0; if x is clamped to the right bound, vx < 0; if y is clamped to 0, vy > 0; if y is
  clamped to the lower bound, vy < 0. This holds for the state after \<open>animate\<close> and for
  the function handed to \<open>setPosition\<close>, with the velocity of any state of a run.
\<close>

theorem reflection_law:
  assumes "reachable v st"
  shows "(clampedLeft v (velocity st) (deltaTimeOf t st) (position st) \<longrightarrow>
            pos_x (position (animate v rw rc t st)) = 0 \<and>
            0 < vel_x (velocity (animate v rw rc t st))) \<and>
         (clampedRight v (velocity st) (dimensions st) (deltaTimeOf t st) (position st) \<longrightarrow>
            pos_x (position (animate v rw rc t st)) =
              width (dimensions st) - wordWidth (dimensions st) \<and>
            vel_x (velocity (animate v rw rc t st)) < 0) \<and>
         (clampedTop v (velocity st) (deltaTimeOf t st) (position st) \<longrightarrow>
            pos_y (position (animate v rw rc t st)) = 0 \<and>
            0 < vel_y (velocity (animate v rw rc t st))) \<and>
         (clampedBottom v (velocity st) (dimensions st) (deltaTimeOf t st) (position st) \<longrightarrow>
            pos_y (position (animate v rw rc t st)) =
              height (dimensions st) - wordHeight (dimensions st) \<and>
            vel_y (velocity (animate v rw rc t st)) < 0) \<and>
         (clampedLeft v (velocity st) deltaTime p \<longrightarrow>
            0 < vel_x (newVelocity (updatePosition v (velocity st) d deltaTime p))) \<and>
         (clampedRight v (velocity st) d deltaTime p \<longrightarrow>
            vel_x (newVelocity (updatePosition v (velocity st) d deltaTime p)) < 0) \<and>
         (clampedTop v (velocity st) deltaTime p \<longrightarrow>
            0 < vel_y (newVelocity (updatePosition v (velocity st) d deltaTime p))) \<and>
         (clampedBottom v (velocity st) d deltaTime p \<longrightarrow>
            vel_y (newVelocity (updatePosition v (velocity st) d deltaTime p)) < 0)"
proof -
  let ?dt = "deltaTimeOf t st"
  let ?f = "updatePosition v (velocity st) (dimensions st) ?dt (position st)"
  note strict = reflection_strict_in_runs [OF assms]
  note run = strict [of ?dt "position st" "dimensions st"]
  have vel: "velocity (animate v rw rc t st) = newVelocity ?f" if "collisionDetected ?f"
    using that by (simp add: animate_velocity Let_def)
  have left: "pos_x (position (animate v rw rc t st)) = 0 \<and>
      0 < vel_x (velocity (animate v rw rc t st))"
    if c: "clampedLeft v (velocity st) ?dt (position st)"
    using run c clamp_position(1) [OF c] vel [OF clamp_collision(1) [OF c]] by simp
  have right: "pos_x (position (animate v rw rc t st)) =
        width (dimensions st) - wordWidth (dimensions st) \<and>
      vel_x (velocity (animate v rw rc t st)) < 0"
    if c: "clampedRight v (velocity st) (dimensions st) ?dt (position st)"
    using run c clamp_position(2) [OF c] vel [OF clamp_collision(2) [OF c]] by simp
  have top: "pos_y (position (animate v rw rc t st)) = 0 \<and>
      0 < vel_y (velocity (animate v rw rc t st))"
    if c: "clampedTop v (velocity st) ?dt (position st)"
    using run c clamp_position(3) [OF c] vel [OF clamp_collision(3) [OF c]] by simp
  have bottom: "pos_y (position (animate v rw rc t st)) =
        height (dimensions st) - wordHeight (dimensions st) \<and>
      vel_y (velocity (animate v rw rc t st)) < 0"
    if c: "clampedBottom v (velocity st) (dimensions st) ?dt (position st)"
    using run c clamp_position(4) [OF c] vel [OF clamp_collision(4) [OF c]] by simp
  from left right top bottom strict [of deltaTime p d] show ?thesis by blast
qed


theorem reflection_law_witness:
  "reachable Toggle
     (refresh Toggle (1000, 1/2, 1/2) (setDimensions Toggle scenarioDimensions initialState)) \<and>
   clampedRight Toggle \<lparr>vel_x = 1, vel_y = 1\<rparr> scenarioDimensions 5 \<lparr>pos_x = 50, pos_y = 50\<rparr> \<and>
   clampedBottom Toggle \<lparr>vel_x = 1, vel_y = 1\<rparr> scenarioDimensions 5 \<lparr>pos_x = 50, pos_y = 50\<rparr> \<and>
   vel_x (velocity (animate Toggle (1/2) (1/2) 6000
     (refresh Toggle (1000, 1/2, 1/2) (setDimensions Toggle scenarioDimensions initialState)))) < 0 \<and>
   vel_y (velocity (animate Toggle (1/2) (1/2) 6000
     (refresh Toggle (1000, 1/2, 1/2) (setDimensions Toggle scenarioDimensions initialState)))) < 0 \<and>
   reachable Toggle
     (refresh Toggle (6000, 1/2, 1/2)
       (refresh Toggle (1000, 1/2, 1/2) (setDimensions Toggle scenarioDimensions initialState))) \<and>
   clampedLeft Toggle \<lparr>vel_x = -1, vel_y = -1\<rparr> 6 \<lparr>pos_x = 400, pos_y = 250\<rparr> \<and>
   clampedTop Toggle \<lparr>vel_x = -1, vel_y = -1\<rparr> 6 \<lparr>pos_x = 400, pos_y = 250\<rparr> \<and>
   0 < vel_x (velocity (animate Toggle (1/2) (1/2) 12000
     (refresh Toggle (6000, 1/2, 1/2)
       (refresh Toggle (1000, 1/2, 1/2) (setDimensions Toggle scenarioDimensions initialState))))) \<and>
   0 < vel_y (velocity (animate Toggle (1/2) (1/2) 12000
     (refresh Toggle (6000, 1/2, 1/2)
       (refresh Toggle (1000, 1/2, 1/2) (setDimensions Toggle scenarioDimensions initialState)))))"
proof -
  let ?s0 = "setDimensions Toggle scenarioDimensions initialState"
  let ?s1 = "refresh Toggle (1000, 1/2, 1/2) ?s0"
  let ?s2 = "refresh Toggle (6000, 1/2, 1/2) ?s1"
  have half: "(0::real) \<le> 1/2" "(1/2::real) < 1" by simp_all
  have r0: "reachable Toggle ?s0" by (rule reachable.resize [OF reachable.start])
  have r1: "reachable Toggle ?s1" by (rule reachable.tick [OF r0 half half])
  have r2: "reachable Toggle ?s2" by (rule reachable.tick [OF r1 half half])
  have s0: "position ?s0 = \<lparr>pos_x = 50, pos_y = 50\<rparr>" "velocity ?s0 = \<lparr>vel_x = 1, vel_y = 1\<rparr>"
    "dimensions ?s0 = scenarioDimensions" "lastTimeRef ?s0 = 0"
    by (simp_all add: setDimensions_def initialState_def)
  have p0: "pending ?s0 = [1]"
    by (simp add: setDimensions_def rerunAnimationEffect_def animationEffect_def
        requestAnimationFrame_def initialState_def hasMotionToggle_def scenarioDimensions_def)
  have e1: "?s1 = animate Toggle (1/2) (1/2) 1000 (?s0\<lparr>pending := []\<rparr>)"
    by (simp add: p0)
  have f1: "updatePosition Toggle \<lparr>vel_x = 1, vel_y = 1\<rparr> scenarioDimensions 0 \<lparr>pos_x = 50, pos_y = 50\<rparr> =
      \<lparr>newPosition = \<lparr>pos_x = 50, pos_y = 50\<rparr>, newVelocity = \<lparr>vel_x = 1, vel_y = 1\<rparr>,
       collisionDetected = False\<rparr>"
    by (simp add: updatePosition_def checkHorizontal_def checkVertical_def candidate_def
        scenarioDimensions_def)
  have d1: "deltaTimeOf 1000 (?s0\<lparr>pending := []\<rparr>) = 0"
    by (simp add: deltaTimeOf_def s0)
  have s1: "position ?s1 = \<lparr>pos_x = 50, pos_y = 50\<rparr>" "velocity ?s1 = \<lparr>vel_x = 1, vel_y = 1\<rparr>"
    "dimensions ?s1 = scenarioDimensions" "lastTimeRef ?s1 = 1000"
    unfolding e1 animate_position animate_velocity Let_def
    by (simp_all add: s0 d1 f1)
  have p1: "pending ?s1 = [2]"
    unfolding e1 by (simp add: setDimensions_def rerunAnimationEffect_def animationEffect_def
        requestAnimationFrame_def initialState_def hasMotionToggle_def scenarioDimensions_def)
  have dt1: "deltaTimeOf 6000 ?s1 = 5" by (simp add: deltaTimeOf_def s1 del: refresh.simps)
  have cr: "clampedRight Toggle \<lparr>vel_x = 1, vel_y = 1\<rparr> scenarioDimensions 5 \<lparr>pos_x = 50, pos_y = 50\<rparr>"
    and cb: "clampedBottom Toggle \<lparr>vel_x = 1, vel_y = 1\<rparr> scenarioDimensions 5 \<lparr>pos_x = 50, pos_y = 50\<rparr>"
    by (simp_all add: clampedRight_def clampedBottom_def SPEED_def scenarioDimensions_def)
  have e2: "?s2 = animate Toggle (1/2) (1/2) 6000 (?s1\<lparr>pending := []\<rparr>)"
    unfolding refresh.simps [of Toggle 6000 "1/2" "1/2" ?s1] p1 by simp
  have d2: "deltaTimeOf 6000 (?s1\<lparr>pending := []\<rparr>) = 5"
    by (simp add: deltaTimeOf_def s1 del: refresh.simps)
  have f2: "updatePosition Toggle \<lparr>vel_x = 1, vel_y = 1\<rparr> scenarioDimensions 5 \<lparr>pos_x = 50, pos_y = 50\<rparr> =
      \<lparr>newPosition = \<lparr>pos_x = 400, pos_y = 250\<rparr>, newVelocity = \<lparr>vel_x = -1, vel_y = -1\<rparr>,
       collisionDetected = True\<rparr>"
    by (simp add: updatePosition_def checkHorizontal_def checkVertical_def candidate_def
        scenarioDimensions_def SPEED_def)
  have s2: "position ?s2 = \<lparr>pos_x = 400, pos_y = 250\<rparr>" "velocity ?s2 = \<lparr>vel_x = -1, vel_y = -1\<rparr>"
    "dimensions ?s2 = scenarioDimensions" "lastTimeRef ?s2 = 6000"
    unfolding e2 animate_position animate_velocity Let_def
    by (simp_all add: s1 d2 f2 del: refresh.simps)
  have dt2: "deltaTimeOf 12000 ?s2 = 6" by (simp add: deltaTimeOf_def s2 del: refresh.simps)
  have cl: "clampedLeft Toggle \<lparr>vel_x = -1, vel_y = -1\<rparr> 6 \<lparr>pos_x = 400, pos_y = 250\<rparr>"
    and ct: "clampedTop Toggle \<lparr>vel_x = -1, vel_y = -1\<rparr> 6 \<lparr>pos_x = 400, pos_y = 250\<rparr>"
    by (simp_all add: clampedLeft_def clampedTop_def SPEED_def)
  note w1 = reflection_law [OF r1, of 6000 "1/2" "1/2", unfolded dt1 s1]
  note w2 = reflection_law [OF r2, of 12000 "1/2" "1/2", unfolded dt2 s2]
  from w1 cr cb have a: "vel_x (velocity (animate Toggle (1/2) (1/2) 6000 ?s1)) < 0"
    "vel_y (velocity (animate Toggle (1/2) (1/2) 6000 ?s1)) < 0"
    by blast+
  from w2 cl ct have b: "0 < vel_x (velocity (animate Toggle (1/2) (1/2) 12000 ?s2))"
    "0 < vel_y (velocity (animate Toggle (1/2) (1/2) 12000 ?s2))"
    by blast+
  from r1 r2 cr cb cl ct a b show ?thesis by blast
qed

end
